theory Spec2Isabelle
  imports Complex_Main "HOL-Library.Sublist"
begin

section \<open>Strings of the add-on\<close>

text \<open>
  The add-on is one Apps Script file, \<^verbatim>\<open>openai-grammar-checker.js\<close>. Its strings are
  sequences of code units; the model uses \<^typ>\<open>string\<close>, so it covers the code units
  below 256 (Latin-1), where every constant below is the ECMAScript one restricted to
  that range.
\<close>

definition is_space :: "char \<Rightarrow> bool" where
  \<comment> \<open>WhiteSpace and LineTerminator of ECMAScript below 256: TAB, LF, VT, FF, CR, SP, NBSP.
      It is the class \<^verbatim>\<open>\s\<close> of a regular expression and the set \<^verbatim>\<open>trim\<close> removes.\<close>
  "is_space c \<longleftrightarrow> c \<in> set [CHR 0x09, CHR 0x0A, CHR 0x0B, CHR 0x0C, CHR 0x0D, CHR 0x20, CHR 0xA0]"

definition trim :: "string \<Rightarrow> string" where
  \<comment> \<open>\<^verbatim>\<open>String.prototype.trim\<close>\<close>
  "trim s = rev (dropWhile is_space (rev (dropWhile is_space s)))"

definition toLowerCase_char :: "char \<Rightarrow> char" where
  \<comment> \<open>A-Z and the Latin-1 capitals U+00C0..U+00DE (without the sign U+00D7) move up by 32.\<close>
  "toLowerCase_char c =
     (let n = (of_char c :: nat)
      in if (65 \<le> n \<and> n \<le> 90) \<or> (192 \<le> n \<and> n \<le> 222 \<and> n \<noteq> 215)
         then char_of (n + 32) else c)"

definition toLowerCase :: "string \<Rightarrow> string" where
  "toLowerCase s = map toLowerCase_char s"

definition charAt0 :: "string \<Rightarrow> char option" where
  \<comment> \<open>\<^verbatim>\<open>word[0]\<close>: the first code unit, \<^verbatim>\<open>undefined\<close> (here \<open>None\<close>) on the empty string.\<close>
  "charAt0 s = (case s of [] \<Rightarrow> None | c # _ \<Rightarrow> Some c)"

section \<open>Similar words\<close>

text \<open>
  \<^verbatim>\<open>
  function similarWords(word1, word2) {
    word1 = word1.toLowerCase();
    word2 = word2.toLowerCase();
    return word1[0] === word2[0] && Math.abs(word1.length - word2.length) <= 2;
  }
  \<close>
\<close>

definition similarWords :: "string \<Rightarrow> string \<Rightarrow> bool" where
  "similarWords word1 word2 =
     (let w1 = toLowerCase word1; w2 = toLowerCase word2
      in charAt0 w1 = charAt0 w2 \<and> \<bar>int (length w1) - int (length w2)\<bar> \<le> 2)"

section \<open>The host state\<close>

text \<open>
  A range is a sheet identifier and an A1 notation. A sheet maps the A1 notation of a
  range to the value last written there (\<open>None\<close>: an empty cell); two notations are two
  locations of the model.
\<close>

record range =
  rangeSheetId :: nat
  a1Notation :: string

record sheet =
  sheetId :: nat
  cells :: "string \<Rightarrow> string option"

datatype js_error =
    Error string      \<comment> \<open>\<^verbatim>\<open>new Error(message)\<close>\<close>
  | TypeError         \<comment> \<open>raised by the engine; its message is the engine's\<close>
  | SyntaxError       \<comment> \<open>raised by \<^verbatim>\<open>JSON.parse\<close>; its message is the engine's\<close>

datatype json =
    JNull
  | JBool bool
  | JNum rat          \<comment> \<open>the mathematical value of the number literal\<close>
  | JStr string
  | JArr "json list"
  | JObj "(string \<times> json) list"
      \<comment> \<open>the members in source order; a later member of the same name wins\<close>

text \<open>
  A JavaScript value that came from JSON, or \<^verbatim>\<open>undefined\<close>, is a \<^typ>\<open>json option\<close>
  with \<open>None\<close> for \<^verbatim>\<open>undefined\<close>. The generated markup of a dialog is kept as the
  values interpolated into it.
\<close>

datatype dialog =
    FixTypos string "(json option \<times> json list) list"
      \<comment> \<open>the original text, and per typo its \<^verbatim>\<open>word\<close> and one replacement button per value\<close>
  | ImproveGrammar string string
      \<comment> \<open>the original and the improved text\<close>

datatype ui_event =
    Alert string
  | AlertOfError js_error   \<comment> \<open>\<^verbatim>\<open>alert('Error: ' + error.message)\<close> for an engine error\<close>
  | Prompt string string
  | ShowModalDialog dialog

text \<open>
  The user properties are the three keys the code uses. \<^verbatim>\<open>CUSTOM_DICTIONARY\<close> holds
  \<^verbatim>\<open>JSON.stringify(dict)\<close> and is read back with \<^verbatim>\<open>JSON.parse\<close>; the model keeps the
  list of words itself, \<open>None\<close> when the key was never written.
\<close>

record world =
  OPENAI_API_KEY :: "string option"
  GRAMMAR_CHECKER_LANGUAGE :: "string option"
  CUSTOM_DICTIONARY :: "string list option"
  userCache :: "string \<Rightarrow> string option"
  sheets :: "sheet list"
  ui :: "ui_event list"

definition world0 :: world where
  "world0 = \<lparr>OPENAI_API_KEY = None, GRAMMAR_CHECKER_LANGUAGE = None,
     CUSTOM_DICTIONARY = None, userCache = (\<lambda>_. None), sheets = [], ui = []\<rparr>"

section \<open>The custom dictionary\<close>

text \<open>
  \<^verbatim>\<open>
  function getCustomDictionary() {
    const dictString = PropertiesService.getUserProperties().getProperty('CUSTOM_DICTIONARY');
    return dictString ? JSON.parse(dictString) : [];
  }
  \<close>
\<close>

definition getCustomDictionary :: "world \<Rightarrow> string list" where
  "getCustomDictionary w = (case CUSTOM_DICTIONARY w of None \<Rightarrow> [] | Some d \<Rightarrow> d)"

text \<open>
  \<^verbatim>\<open>
  function addToCustomDictionary(word) {
    word = word.trim();
    if (!word) return getCustomDictionary();
    const dict = getCustomDictionary();
    if (!dict.includes(word)) {
      dict.push(word);
      PropertiesService.getUserProperties().setProperty('CUSTOM_DICTIONARY', JSON.stringify(dict));
    }
    return dict;
  }
  \<close>
\<close>

definition addToCustomDictionary :: "string \<Rightarrow> world \<Rightarrow> string list \<times> world" where
  "addToCustomDictionary word0 w =
     (let word = trim word0
      in if word = [] then (getCustomDictionary w, w)
         else let dict = getCustomDictionary w
              in if word \<notin> set dict
                 then (dict @ [word], w\<lparr>CUSTOM_DICTIONARY := Some (dict @ [word])\<rparr>)
                 else (dict, w))"

text \<open>
  \<^verbatim>\<open>
  function removeFromCustomDictionary(index) {
    const dict = getCustomDictionary();
    if (index >= 0 && index < dict.length) {
      dict.splice(index, 1);
      PropertiesService.getUserProperties().setProperty('CUSTOM_DICTIONARY', JSON.stringify(dict));
    }
    return dict;
  }
  \<close>
  The index is an integer, as the dictionary manager passes the position of the entry.
\<close>

definition splice1 :: "nat \<Rightarrow> 'a list \<Rightarrow> 'a list" where
  \<comment> \<open>\<^verbatim>\<open>dict.splice(index, 1)\<close> for an index inside the list\<close>
  "splice1 i xs = take i xs @ drop (Suc i) xs"

definition removeFromCustomDictionary :: "int \<Rightarrow> world \<Rightarrow> string list \<times> world" where
  "removeFromCustomDictionary index w =
     (let dict = getCustomDictionary w
      in if index \<ge> 0 \<and> index < int (length dict)
         then (splice1 (nat index) dict, w\<lparr>CUSTOM_DICTIONARY := Some (splice1 (nat index) dict)\<rparr>)
         else (dict, w))"

section \<open>Values read from JSON\<close>

definition num_is_zero :: "rat \<Rightarrow> bool" where
  \<comment> \<open>The Number of a literal is the nearest double, ties to even: it is \<open>0\<close> exactly
      when the literal is at most half the least subnormal, \<open>2 ^ -1075\<close>, in magnitude.\<close>
  "num_is_zero q \<longleftrightarrow> \<bar>q\<bar> \<le> 1 / 2 ^ 1075"

fun truthy :: "json option \<Rightarrow> bool" where
  "truthy None = False"
| "truthy (Some JNull) = False"
| "truthy (Some (JBool b)) = b"
| "truthy (Some (JNum q)) = (\<not> num_is_zero q)"
| "truthy (Some (JStr s)) = (s \<noteq> [])"
| "truthy (Some (JArr xs)) = True"
| "truthy (Some (JObj kvs)) = True"

definition lookup_member :: "(string \<times> json) list \<Rightarrow> string \<Rightarrow> json option" where
  "lookup_member kvs k = map_of (rev kvs) k"

text \<open>\<^verbatim>\<open>v.k\<close> for the names the code reads (\<^verbatim>\<open>choices\<close>, \<^verbatim>\<open>message\<close>, \<^verbatim>\<open>content\<close>,
  \<^verbatim>\<open>typos\<close>, \<^verbatim>\<open>word\<close>, \<^verbatim>\<open>replacements\<close>): only an object can have them.\<close>

fun get_prop :: "string \<Rightarrow> json option \<Rightarrow> js_error + json option" where
  "get_prop k None = Inl TypeError"
| "get_prop k (Some JNull) = Inl TypeError"
| "get_prop k (Some (JObj kvs)) = Inr (lookup_member kvs k)"
| "get_prop k (Some v) = Inr None"

text \<open>\<^verbatim>\<open>v[0]\<close>\<close>

fun index0 :: "json option \<Rightarrow> js_error + json option" where
  "index0 None = Inl TypeError"
| "index0 (Some JNull) = Inl TypeError"
| "index0 (Some (JArr xs)) = Inr (case xs of [] \<Rightarrow> None | x # _ \<Rightarrow> Some x)"
| "index0 (Some (JStr s)) = Inr (case s of [] \<Rightarrow> None | c # _ \<Rightarrow> Some (JStr [c]))"
| "index0 (Some (JObj kvs)) = Inr (lookup_member kvs ''0'')"
| "index0 (Some v) = Inr None"

text \<open>\<^verbatim>\<open>v.length === 0\<close> for a truthy \<open>v\<close>\<close>

fun length_is_zero :: "json \<Rightarrow> bool" where
  "length_is_zero (JArr xs) = (xs = [])"
| "length_is_zero (JStr s) = (s = [])"
| "length_is_zero (JObj kvs) = (case lookup_member kvs ''length'' of Some (JNum q) \<Rightarrow> num_is_zero q | _ \<Rightarrow> False)"
| "length_is_zero v = False"

section \<open>Decimal numerals\<close>

definition digit_char :: "nat \<Rightarrow> char" where
  "digit_char d = char_of (48 + d)"

text \<open>\<^verbatim>\<open>toString()\<close> of a non-negative integer, and its interpolation into a template\<close>

function toString_nat :: "nat \<Rightarrow> string" where
  "toString_nat n = (if n < 10 then [digit_char n] else toString_nat (n div 10) @ [digit_char (n mod 10)])"
  by pat_completeness auto
termination
  by (relation "measure id") auto

declare toString_nat.simps [simp del]

section \<open>The two regular expressions of the reply and the fence remover\<close>

definition fence_json :: string where
  "fence_json = ''```json''"

definition fence :: string where
  "fence = ''```''"

text \<open>the text before and the text after the leftmost occurrence of a pattern\<close>

fun find_sub :: "string \<Rightarrow> string \<Rightarrow> (string \<times> string) option" where
  "find_sub pat [] = (if pat = [] then Some ([], []) else None)"
| "find_sub pat (c # cs) =
     (if prefix pat (c # cs) then Some ([], drop (length pat) (c # cs))
      else case find_sub pat cs of None \<Rightarrow> None | Some (b, a) \<Rightarrow> Some (c # b, a))"

text \<open>
  \<^verbatim>\<open>response.match(/```json\s*([\s\S]*?)\s*```/)\<close>, element 0 of the result. The
  expression matches at the leftmost \<^verbatim>\<open>```json\<close> that has a \<^verbatim>\<open>```\<close> somewhere behind
  it (white space holds no backquote, so the two \<^verbatim>\<open>\s*\<close> never decide whether there is
  a match), and since the group is lazy the match ends with the first such \<^verbatim>\<open>```\<close>. A
  later \<^verbatim>\<open>```json\<close> is itself such a \<^verbatim>\<open>```\<close>, so only the first \<^verbatim>\<open>```json\<close> can start
  a match.
\<close>

definition match_fence :: "string \<Rightarrow> string option" where
  "match_fence response =
     (case find_sub fence_json response of
        None \<Rightarrow> None
      | Some (before, rest) \<Rightarrow>
          (case find_sub fence rest of
             None \<Rightarrow> None
           | Some (body, after) \<Rightarrow> Some (fence_json @ body @ fence)))"

text \<open>
  \<^verbatim>\<open>response.match(/{[\s\S]*}/)\<close>, element 0 of the result: the star is greedy, so the
  match runs from the first \<^verbatim>\<open>{\<close> to the last \<^verbatim>\<open>}\<close> of the reply, when that one is
  behind the first \<^verbatim>\<open>{\<close>.
\<close>

definition match_braces :: "string \<Rightarrow> string option" where
  "match_braces response =
     (case find_sub ''{'' response of
        None \<Rightarrow> None
      | Some (before, rest) \<Rightarrow>
          if CHR ''}'' \<in> set rest
          then Some (CHR ''{'' # rev (dropWhile (\<lambda>c. c \<noteq> CHR ''}'') (rev rest)))
          else None)"

definition jsonMatch :: "string \<Rightarrow> string option" where
  \<comment> \<open>\<^verbatim>\<open>response.match(fenced) || response.match(braces)\<close>\<close>
  "jsonMatch response =
     (case match_fence response of Some m \<Rightarrow> Some m | None \<Rightarrow> match_braces response)"

text \<open>\<^verbatim>\<open>.replace(/```json|```/g, '')\<close>\<close>

function strip_fences :: "string \<Rightarrow> string" where
  "strip_fences s =
     (if s = [] then []
      else if prefix fence_json s then strip_fences (drop 7 s)
      else if prefix fence s then strip_fences (drop 3 s)
      else hd s # strip_fences (tl s))"
  by pat_completeness auto
termination
  by (relation "measure length") auto

declare strip_fences.simps [simp del]

section \<open>The reply of the model\<close>

text \<open>
  \<^verbatim>\<open>JSON.parse\<close> is the engine's: the functions take it as a parameter \<open>JSON_parse\<close>,
  \<open>None\<close> where it throws.
  \<^verbatim>\<open>
      let result;
      try {
        const jsonMatch = response.match(/```json\s*([\s\S]*?)\s*```/) ||
                        response.match(/{[\s\S]*}/);
        if (jsonMatch) {
          result = JSON.parse(jsonMatch[0].replace(/```json|```/g, '').trim());
        } else {
          result = JSON.parse(response);
        }
      } catch (e) {
        throw new Error("Failed to parse OpenAI response");
      }
  \<close>
\<close>

definition candidate :: "string \<Rightarrow> string" where
  \<comment> \<open>the one text handed to \<^verbatim>\<open>JSON.parse\<close>\<close>
  "candidate response =
     (case jsonMatch response of
        Some m \<Rightarrow> trim (strip_fences m)
      | None \<Rightarrow> response)"

definition parse_failed :: js_error where
  "parse_failed = Error ''Failed to parse OpenAI response''"

definition parseReply :: "(string \<Rightarrow> json option) \<Rightarrow> json option \<Rightarrow> js_error + json" where
  \<comment> \<open>a truthy reply that is no string has no \<^verbatim>\<open>match\<close>: the TypeError is caught like the
      SyntaxError of \<^verbatim>\<open>JSON.parse\<close>\<close>
  "parseReply JSON_parse response =
     (case response of
        Some (JStr r) \<Rightarrow>
          (case JSON_parse (candidate r) of
             None \<Rightarrow> Inl parse_failed
           | Some result \<Rightarrow> Inr result)
      | _ \<Rightarrow> Inl parse_failed)"

definition no_typos :: "json \<Rightarrow> bool" where
  \<comment> \<open>\<^verbatim>\<open>!result || !result.typos || result.typos.length === 0\<close>\<close>
  "no_typos result =
     (\<not> truthy (Some result) \<or>
      (case get_prop ''typos'' (Some result) of
         Inl e \<Rightarrow> False
       | Inr typos \<Rightarrow> \<not> truthy typos \<or> (case typos of None \<Rightarrow> False | Some t \<Rightarrow> length_is_zero t)))"

section \<open>The chat-completion call\<close>

record request =
  url :: string
  authorization :: string
  payload_model :: string
  payload_messages :: "(string \<times> string) list"   \<comment> \<open>role and content\<close>
  payload_temperature :: rat
  payload_max_tokens :: nat

datatype fetch_result =
    HttpResponse nat string   \<comment> \<open>the response code and the content text\<close>
  | FetchThrows string        \<comment> \<open>\<^verbatim>\<open>UrlFetchApp.fetch\<close> throws an error with this message\<close>

text \<open>
  \<^verbatim>\<open>
  function callOpenAI(apiKey, messages) {
    ...
    const response = UrlFetchApp.fetch(url, options);
    const responseCode = response.getResponseCode();
    const responseBody = response.getContentText();
    if (responseCode !== 200) {
      console.error('API Error:', responseCode, responseBody);
      throw new Error(`API Error ${responseCode}: ${responseBody}`);
    }
    const parsedResponse = JSON.parse(responseBody);
    return parsedResponse.choices[0].message.content;
  }
  \<close>
  The network is the parameter \<open>fetch\<close>. Writes to the console are not part of the model.
\<close>

definition api_error :: "nat \<Rightarrow> string \<Rightarrow> js_error" where
  "api_error responseCode responseBody =
     Error (''API Error '' @ toString_nat responseCode @ '': '' @ responseBody)"

definition content_of :: "json \<Rightarrow> js_error + json option" where
  \<comment> \<open>\<^verbatim>\<open>parsedResponse.choices[0].message.content\<close>\<close>
  "content_of parsedResponse =
     (case get_prop ''choices'' (Some parsedResponse) of
        Inl e \<Rightarrow> Inl e
      | Inr choices \<Rightarrow>
          (case index0 choices of
             Inl e \<Rightarrow> Inl e
           | Inr choice \<Rightarrow>
               (case get_prop ''message'' choice of
                  Inl e \<Rightarrow> Inl e
                | Inr message \<Rightarrow> get_prop ''content'' message)))"

definition callOpenAI ::
  "(string \<Rightarrow> json option) \<Rightarrow> (request \<Rightarrow> fetch_result) \<Rightarrow> string \<Rightarrow> (string \<times> string) list
     \<Rightarrow> js_error + json option" where
  "callOpenAI JSON_parse fetch apiKey messages =
     (case fetch \<lparr>url = ''https://api.openai.com/v1/chat/completions'',
                  authorization = ''Bearer '' @ apiKey,
                  payload_model = ''gpt-4'',
                  payload_messages = messages,
                  payload_temperature = 3 / 10,
                  payload_max_tokens = 1000\<rparr> of
        FetchThrows m \<Rightarrow> Inl (Error m)
      | HttpResponse responseCode responseBody \<Rightarrow>
          if responseCode \<noteq> 200 then Inl (api_error responseCode responseBody)
          else (case JSON_parse responseBody of
                  None \<Rightarrow> Inl SyntaxError
                | Some parsedResponse \<Rightarrow> content_of parsedResponse))"

section \<open>Writing back to the remembered cell\<close>

text \<open>
  \<^verbatim>\<open>
  function getSheetById(id) {
    const sheets = SpreadsheetApp.getActiveSpreadsheet().getSheets();
    for (let i = 0; i < sheets.length; i++) {
      if (sheets[i].getSheetId().toString() === id) {
        return sheets[i];
      }
    }
    return null;
  }
  \<close>
  A sheet object is its position in the list of sheets.
\<close>

fun getSheetById :: "string \<Rightarrow> sheet list \<Rightarrow> nat option" where
  "getSheetById ident [] = None"
| "getSheetById ident (s # ss) =
     (if toString_nat (sheetId s) = ident then Some 0
      else case getSheetById ident ss of None \<Rightarrow> None | Some i \<Rightarrow> Some (Suc i))"

definition setValue :: "string \<Rightarrow> string \<Rightarrow> sheet \<Rightarrow> sheet" where
  \<comment> \<open>\<^verbatim>\<open>sheet.getRange(rangeA1).setValue(text)\<close>\<close>
  "setValue rangeA1 text sh = sh\<lparr>cells := (cells sh)(rangeA1 := Some text)\<rparr>"

definition falsy_entry :: "string option \<Rightarrow> bool" where
  \<comment> \<open>\<^verbatim>\<open>!v\<close> for what the cache returns: \<^verbatim>\<open>null\<close> or a string\<close>
  "falsy_entry v \<longleftrightarrow> v = None \<or> v = Some []"

text \<open>
  \<^verbatim>\<open>
  function updateCellWithCorrectedText(correctedText) {
    const rangeA1 = CacheService.getUserCache().get('ACTIVE_RANGE_A1');
    const sheetId = CacheService.getUserCache().get('ACTIVE_SHEET_ID');
    if (!rangeA1 || !sheetId) return;
    const sheet = getSheetById(sheetId);
    if (sheet) {
      const range = sheet.getRange(rangeA1);
      range.setValue(correctedText);
    }
  }
  \<close>
\<close>

definition updateCellWithCorrectedText :: "string \<Rightarrow> world \<Rightarrow> world" where
  "updateCellWithCorrectedText correctedText w =
     (let rangeA1 = userCache w ''ACTIVE_RANGE_A1'';
          sheetId = userCache w ''ACTIVE_SHEET_ID''
      in if falsy_entry rangeA1 \<or> falsy_entry sheetId then w
         else case (rangeA1, sheetId) of
                (Some a1, Some sid) \<Rightarrow>
                  (case getSheetById sid (sheets w) of
                     None \<Rightarrow> w
                   | Some i \<Rightarrow> w\<lparr>sheets := (sheets w)[i := setValue a1 correctedText (sheets w ! i)]\<rparr>)
              | _ \<Rightarrow> w)"

text \<open>
  \<^verbatim>\<open>
  function updateCellWithImprovedGrammar(improvedText) {
    const rangeA1 = CacheService.getUserCache().get('ACTIVE_RANGE_A1');
    const sheetId = CacheService.getUserCache().get('ACTIVE_SHEET_ID');
    if (!rangeA1 || !sheetId) return;
    const sheet = getSheetById(sheetId);
    if (sheet) {
      const range = sheet.getRange(rangeA1);
      range.setValue(improvedText);
    }
  }
  \<close>
\<close>

definition updateCellWithImprovedGrammar :: "string \<Rightarrow> world \<Rightarrow> world" where
  "updateCellWithImprovedGrammar improvedText w =
     (let rangeA1 = userCache w ''ACTIVE_RANGE_A1'';
          sheetId = userCache w ''ACTIVE_SHEET_ID''
      in if falsy_entry rangeA1 \<or> falsy_entry sheetId then w
         else case (rangeA1, sheetId) of
                (Some a1, Some sid) \<Rightarrow>
                  (case getSheetById sid (sheets w) of
                     None \<Rightarrow> w
                   | Some i \<Rightarrow> w\<lparr>sheets := (sheets w)[i := setValue a1 improvedText (sheets w ! i)]\<rparr>)
              | _ \<Rightarrow> w)"

definition rememberRange :: "range \<Rightarrow> world \<Rightarrow> world" where
  \<comment> \<open>\<^verbatim>\<open>CacheService.getUserCache().put('ACTIVE_RANGE_A1', range.getA1Notation())\<close> and
      \<^verbatim>\<open>put('ACTIVE_SHEET_ID', range.getSheet().getSheetId().toString())\<close>\<close>
  "rememberRange r w =
     w\<lparr>userCache := (userCache w)
          (''ACTIVE_RANGE_A1'' := Some (a1Notation r),
           ''ACTIVE_SHEET_ID'' := Some (toString_nat (rangeSheetId r)))\<rparr>"

definition alert :: "string \<Rightarrow> world \<Rightarrow> world" where
  "alert msg w = w\<lparr>ui := ui w @ [Alert msg]\<rparr>"

definition alert_error :: "js_error \<Rightarrow> world \<Rightarrow> world" where
  \<comment> \<open>\<^verbatim>\<open>SpreadsheetApp.getUi().alert('Error: ' + error.message)\<close>\<close>
  "alert_error e w =
     (case e of
        Error m \<Rightarrow> alert (''Error: '' @ m) w
      | _ \<Rightarrow> w\<lparr>ui := ui w @ [AlertOfError e]\<rparr>)"

section \<open>The API key dialog\<close>

text \<open>
  \<^verbatim>\<open>
  function showApiKeyDialog() {
    const ui = SpreadsheetApp.getUi();
    const result = ui.prompt('OpenAI API Key', 'Please enter your OpenAI API key:', ui.ButtonSet.OK_CANCEL);
    if (result.getSelectedButton() == ui.Button.OK) {
      const apiKey = result.getResponseText().trim();
      PropertiesService.getUserProperties().setProperty('OPENAI_API_KEY', apiKey);
      ui.alert('API key saved successfully!');
    }
  }
  \<close>
  What the user does with the prompt is the parameter \<open>result\<close>: whether OK was pressed,
  and the text entered.
\<close>

definition showApiKeyDialog :: "bool \<times> string \<Rightarrow> world \<Rightarrow> world" where
  "showApiKeyDialog result w =
     (let w1 = w\<lparr>ui := ui w @ [Prompt ''OpenAI API Key'' ''Please enter your OpenAI API key:'']\<rparr>
      in if fst result
         then alert ''API key saved successfully!'' (w1\<lparr>OPENAI_API_KEY := Some (trim (snd result))\<rparr>)
         else w1)"

section \<open>Typo suggestions\<close>

text \<open>
  \<^verbatim>\<open>
      ${typos.map((typo, index) => {
        const allReplacements = [...typo.replacements];
        customDict.forEach(dictWord => {
          if (similarWords(typo.word, dictWord) && !allReplacements.includes(dictWord)) {
            allReplacements.push(dictWord);
          }
        });
        return `... ${allReplacements.map(replacement => `<button ...>`).join('')}
                <button ... >Keep Original</button> ...`;
      }).join('')}
  \<close>
\<close>

text \<open>\<^verbatim>\<open>[...v]\<close>: an array and a string are iterable, nothing else from JSON is.\<close>

fun spread :: "json option \<Rightarrow> js_error + json list" where
  "spread (Some (JArr xs)) = Inr xs"
| "spread (Some (JStr s)) = Inr (map (\<lambda>c. JStr [c]) s)"
| "spread v = Inl TypeError"

text \<open>The \<^verbatim>\<open>forEach\<close> over the dictionary; \<^verbatim>\<open>similarWords\<close> calls \<^verbatim>\<open>toLowerCase\<close> on
  the word of the typo, which only a string has.\<close>

fun addDictionaryWords :: "json option \<Rightarrow> string list \<Rightarrow> json list \<Rightarrow> js_error + json list" where
  "addDictionaryWords w [] allReplacements = Inr allReplacements"
| "addDictionaryWords w (dictWord # ds) allReplacements =
     (case w of
        Some (JStr word) \<Rightarrow>
          addDictionaryWords w ds
            (if similarWords word dictWord \<and> JStr dictWord \<notin> set allReplacements
             then allReplacements @ [JStr dictWord] else allReplacements)
      | _ \<Rightarrow> Inl TypeError)"

definition typoEntry :: "string list \<Rightarrow> json \<Rightarrow> js_error + (json option \<times> json list)" where
  "typoEntry customDict typo =
     (case get_prop ''replacements'' (Some typo) of
        Inl e \<Rightarrow> Inl e
      | Inr reps \<Rightarrow>
          (case spread reps of
             Inl e \<Rightarrow> Inl e
           | Inr allReplacements \<Rightarrow>
               (case get_prop ''word'' (Some typo) of
                  Inl e \<Rightarrow> Inl e
                | Inr w \<Rightarrow>
                    (case addDictionaryWords w customDict allReplacements of
                       Inl e \<Rightarrow> Inl e
                     | Inr shown \<Rightarrow> Inr (w, shown)))))"

fun typoEntries :: "string list \<Rightarrow> json list \<Rightarrow> js_error + (json option \<times> json list) list" where
  "typoEntries customDict [] = Inr []"
| "typoEntries customDict (typo # typos) =
     (case typoEntry customDict typo of
        Inl e \<Rightarrow> Inl e
      | Inr entry \<Rightarrow>
          (case typoEntries customDict typos of
             Inl e \<Rightarrow> Inl e
           | Inr entries \<Rightarrow> Inr (entry # entries)))"

text \<open>
  \<^verbatim>\<open>
  function showTypoSuggestions(originalText, typos, customDict, range) {
    const htmlContent = `... ${typos.map(...)} ...`;
    const htmlOutput = HtmlService.createHtmlOutput(htmlContent).setWidth(500).setHeight(400);
    SpreadsheetApp.getUi().showModalDialog(htmlOutput, 'Fix Typos');
    CacheService.getUserCache().put('ACTIVE_RANGE_A1', range.getA1Notation());
    CacheService.getUserCache().put('ACTIVE_SHEET_ID', range.getSheet().getSheetId().toString());
  }
  \<close>
  Only an array has \<^verbatim>\<open>map\<close>.
\<close>

definition showTypoSuggestions ::
  "string \<Rightarrow> json \<Rightarrow> string list \<Rightarrow> range \<Rightarrow> world \<Rightarrow> js_error + world" where
  "showTypoSuggestions originalText typos customDict r w =
     (case typos of
        JArr ts \<Rightarrow>
          (case typoEntries customDict ts of
             Inl e \<Rightarrow> Inl e
           | Inr entries \<Rightarrow>
               Inr (rememberRange r (w\<lparr>ui := ui w @ [ShowModalDialog (FixTypos originalText entries)]\<rparr>)))
      | _ \<Rightarrow> Inl TypeError)"

section \<open>The typo action\<close>

definition language_of :: "world \<Rightarrow> string" where
  \<comment> \<open>\<^verbatim>\<open>getProperty('GRAMMAR_CHECKER_LANGUAGE') || 'english'\<close>\<close>
  "language_of w =
     (case GRAMMAR_CHECKER_LANGUAGE w of
        None \<Rightarrow> ''english''
      | Some l \<Rightarrow> if l = [] then ''english'' else l)"

definition typoPrompt :: "string \<Rightarrow> string" where
  "typoPrompt language =
     (if language = ''spanish''
      then ''Identifica palabras con posibles errores ortogr'' @ [CHR 0xE1] @
           ''ficos en el siguiente texto en espa'' @ [CHR 0xF1] @
           ''ol. Para cada palabra, proporciona posibles correcciones:''
      else ''Identify words with potential spelling mistakes in the following English text. For each word, provide possible corrections:'')"

definition typoMessages :: "string \<Rightarrow> string \<Rightarrow> (string \<times> string) list" where
  \<open>typoMessages language text =
     [(''system'', ''You are a spelling assistant. '' @ typoPrompt language @
         '' Return your response as a JSON object with the structure: {"typos":[{"word":"misspelled", "replacements":["correct1", "correct2"]}]}''),
      (''user'', text)]\<close>

text \<open>
  The body of the \<^verbatim>\<open>try\<close> of \<^verbatim>\<open>findTypos\<close>: the call, the check of the reply, its
  parse, and either the alert that there are no typos or the dialog.
  \<^verbatim>\<open>
      const response = callOpenAI(apiKey, [...]);
      if (!response) {
        throw new Error("Failed to get response from OpenAI");
      }
      let result;
      try { ... } catch (e) { ... throw new Error("Failed to parse OpenAI response"); }
      if (!result || !result.typos || result.typos.length === 0) {
        SpreadsheetApp.getUi().alert('No typos found in the selected text.');
        return;
      }
      showTypoSuggestions(text, result.typos, customDict, range);
  \<close>
\<close>

definition findTypos_try ::
  "(string \<Rightarrow> json option) \<Rightarrow> (request \<Rightarrow> fetch_result) \<Rightarrow> string \<Rightarrow> string \<Rightarrow> string list
     \<Rightarrow> string \<Rightarrow> range \<Rightarrow> world \<Rightarrow> js_error + world" where
  "findTypos_try JSON_parse fetch apiKey language customDict text r w =
     (case callOpenAI JSON_parse fetch apiKey (typoMessages language text) of
        Inl e \<Rightarrow> Inl e
      | Inr response \<Rightarrow>
          if \<not> truthy response then Inl (Error ''Failed to get response from OpenAI'')
          else (case parseReply JSON_parse response of
                  Inl e \<Rightarrow> Inl e
                | Inr result \<Rightarrow>
                    if no_typos result
                    then Inr (alert ''No typos found in the selected text.'' w)
                    else (case get_prop ''typos'' (Some result) of
                            Inr (Some typos) \<Rightarrow> showTypoSuggestions text typos customDict r w
                          | _ \<Rightarrow> Inl TypeError)))"

text \<open>
  \<^verbatim>\<open>
  function findTypos(text, range) {
    const language = PropertiesService.getUserProperties().getProperty('GRAMMAR_CHECKER_LANGUAGE') || 'english';
    const apiKey = PropertiesService.getUserProperties().getProperty('OPENAI_API_KEY');
    if (!apiKey) {
      SpreadsheetApp.getUi().alert('Please set your OpenAI API key first.');
      showApiKeyDialog();
      return;
    }
    const customDict = getCustomDictionary();
    try { ... } catch (error) {
      console.error('Error:', error);
      SpreadsheetApp.getUi().alert('Error: ' + error.message);
    }
  }
  \<close>
\<close>

definition findTypos ::
  "(string \<Rightarrow> json option) \<Rightarrow> (request \<Rightarrow> fetch_result) \<Rightarrow> bool \<times> string
     \<Rightarrow> string \<Rightarrow> range \<Rightarrow> world \<Rightarrow> world" where
  "findTypos JSON_parse fetch promptResult text r w =
     (let language = language_of w
      in case OPENAI_API_KEY w of
           None \<Rightarrow> showApiKeyDialog promptResult (alert ''Please set your OpenAI API key first.'' w)
         | Some apiKey \<Rightarrow>
             if apiKey = []
             then showApiKeyDialog promptResult (alert ''Please set your OpenAI API key first.'' w)
             else let customDict = getCustomDictionary w
                  in case findTypos_try JSON_parse fetch apiKey language customDict text r w of
                       Inl error \<Rightarrow> alert_error error w
                     | Inr w' \<Rightarrow> w')"

section \<open>The grammar action\<close>

definition grammarPrompt :: "string \<Rightarrow> string" where
  "grammarPrompt language =
     (if language = ''spanish''
      then ''Mejora la gram'' @ [CHR 0xE1] @ ''tica y claridad de este texto en espa'' @ [CHR 0xF1] @ ''ol:''
      else ''Improve the grammar and clarity of this English text:'')"

definition grammarMessages :: "string \<Rightarrow> string \<Rightarrow> (string \<times> string) list" where
  "grammarMessages language text =
     [(''system'', ''You are a grammar assistant. '' @ grammarPrompt language @
         '' Return only the improved text without any additional explanation.''),
      (''user'', text)]"

text \<open>
  \<^verbatim>\<open>
  function showGrammarComparison(originalText, improvedText, range) {
    const htmlContent = `...`;
    const htmlOutput = HtmlService.createHtmlOutput(htmlContent).setWidth(600).setHeight(400);
    SpreadsheetApp.getUi().showModalDialog(htmlOutput, 'Improve Grammar');
    CacheService.getUserCache().put('ACTIVE_RANGE_A1', range.getA1Notation());
    CacheService.getUserCache().put('ACTIVE_SHEET_ID', range.getSheet().getSheetId().toString());
  }
  \<close>
\<close>

definition showGrammarComparison :: "string \<Rightarrow> string \<Rightarrow> range \<Rightarrow> world \<Rightarrow> world" where
  "showGrammarComparison originalText improvedText r w =
     rememberRange r (w\<lparr>ui := ui w @ [ShowModalDialog (ImproveGrammar originalText improvedText)]\<rparr>)"

text \<open>
  \<^verbatim>\<open>
      const response = callOpenAI(apiKey, [...]);
      if (!response) {
        throw new Error("Failed to get response from OpenAI");
      }
      const improvedText = response.trim();
      showGrammarComparison(text, improvedText, range);
  \<close>
  Only a string has \<^verbatim>\<open>trim\<close>.
\<close>

definition improveGrammar_try ::
  "(string \<Rightarrow> json option) \<Rightarrow> (request \<Rightarrow> fetch_result) \<Rightarrow> string \<Rightarrow> string
     \<Rightarrow> string \<Rightarrow> range \<Rightarrow> world \<Rightarrow> js_error + world" where
  "improveGrammar_try JSON_parse fetch apiKey language text r w =
     (case callOpenAI JSON_parse fetch apiKey (grammarMessages language text) of
        Inl e \<Rightarrow> Inl e
      | Inr response \<Rightarrow>
          if \<not> truthy response then Inl (Error ''Failed to get response from OpenAI'')
          else (case response of
                  Some (JStr s) \<Rightarrow> Inr (showGrammarComparison text (trim s) r w)
                | _ \<Rightarrow> Inl TypeError))"

definition improveGrammar ::
  "(string \<Rightarrow> json option) \<Rightarrow> (request \<Rightarrow> fetch_result) \<Rightarrow> bool \<times> string
     \<Rightarrow> string \<Rightarrow> range \<Rightarrow> world \<Rightarrow> world" where
  "improveGrammar JSON_parse fetch promptResult text r w =
     (let language = language_of w
      in case OPENAI_API_KEY w of
           None \<Rightarrow> showApiKeyDialog promptResult (alert ''Please set your OpenAI API key first.'' w)
         | Some apiKey \<Rightarrow>
             if apiKey = []
             then showApiKeyDialog promptResult (alert ''Please set your OpenAI API key first.'' w)
             else case improveGrammar_try JSON_parse fetch apiKey language text r w of
                    Inl error \<Rightarrow> alert_error error w
                  | Inr w' \<Rightarrow> w')"

section \<open>Accepting a replacement in the dialog\<close>

text \<open>
  The script of the dialog keeps the working copy \<^verbatim>\<open>correctedText\<close>:
  \<^verbatim>\<open>
      function replaceTypo(index, original, replacement) {
        correctedText = correctedText.replace(new RegExp(original, 'g'), replacement);
        document.getElementById('typo-' + index).style.display = 'none';
        updateText();
      }
      function updateText() {
        google.script.run.updateCellWithCorrectedText(correctedText);
      }
  \<close>
  \<^verbatim>\<open>new RegExp(original, 'g')\<close> reads the word as a pattern. The model covers the
  patterns in which every character is an ordinary pattern character, which matches
  itself, or the dot, which matches any character but a line terminator; a word with one
  of the other syntax characters \<^verbatim>\<open>^ $ \ * + ? ( ) [ ] { } |\<close> is outside it (\<open>None\<close>).
\<close>

datatype atom = Lit char | AnyChar

definition other_syntax_chars :: string where
  "other_syntax_chars = ''^$*+?()[]{}|'' @ [CHR 0x5C]"

fun compile :: "string \<Rightarrow> atom list option" where
  "compile [] = Some []"
| "compile (c # cs) =
     (if c \<in> set other_syntax_chars then None
      else case compile cs of
             None \<Rightarrow> None
           | Some atoms \<Rightarrow> Some ((if c = CHR ''.'' then AnyChar else Lit c) # atoms))"

fun atom_matches :: "atom \<Rightarrow> char \<Rightarrow> bool" where
  "atom_matches (Lit c) d = (c = d)"
| "atom_matches AnyChar d = (d \<noteq> CHR 0x0A \<and> d \<noteq> CHR 0x0D)"

definition matches_here :: "atom list \<Rightarrow> string \<Rightarrow> bool" where
  "matches_here atoms s \<longleftrightarrow>
     length atoms \<le> length s \<and> list_all2 atom_matches atoms (take (length atoms) s)"

text \<open>The replacement text of a match (GetSubstitution) for a pattern without groups:
  \<^verbatim>\<open>$$\<close> is a dollar, \<^verbatim>\<open>$&\<close> the match, \<^verbatim>\<open>$`\<close> the text before it, \<^verbatim>\<open>$'\<close> the
  text behind it; any other character stands for itself.\<close>

fun expand :: "string \<Rightarrow> string \<Rightarrow> string \<Rightarrow> string \<Rightarrow> string" where
  "expand [] matched pre post = []"
| "expand [x] matched pre post = [x]"
| "expand (x # c # cs) matched pre post =
     (if x = CHR ''$'' \<and> c = CHR ''$'' then CHR ''$'' # expand cs matched pre post
      else if x = CHR ''$'' \<and> c = CHR ''&'' then matched @ expand cs matched pre post
      else if x = CHR ''$'' \<and> c = CHR 0x60 then pre @ expand cs matched pre post
      else if x = CHR ''$'' \<and> c = CHR 0x27 then post @ expand cs matched pre post
      else x # expand (c # cs) matched pre post)"

text \<open>The global replace: matches are taken from left to right and do not overlap; after
  an empty match the search moves on by one character.\<close>

function replace_all :: "atom list \<Rightarrow> string \<Rightarrow> string \<Rightarrow> string \<Rightarrow> string" where
  "replace_all atoms repl pre s =
     (if matches_here atoms s \<and> atoms \<noteq> []
      then expand repl (take (length atoms) s) pre (drop (length atoms) s) @
           replace_all atoms repl (pre @ take (length atoms) s) (drop (length atoms) s)
      else (if matches_here atoms s then expand repl [] pre s else []) @
           (case s of
              [] \<Rightarrow> []
            | c # cs \<Rightarrow> c # replace_all atoms repl (pre @ [c]) cs))"
  by pat_completeness auto
termination
  by (relation "measure (\<lambda>(atoms, repl, pre, s). length s)")
     (auto simp: matches_here_def neq_Nil_conv)

declare replace_all.simps [simp del]

definition regex_replace :: "string \<Rightarrow> string \<Rightarrow> string \<Rightarrow> string option" where
  \<comment> \<open>\<^verbatim>\<open>text.replace(new RegExp(original, 'g'), replacement)\<close>\<close>
  "regex_replace original replacement text =
     (case compile original of
        None \<Rightarrow> None
      | Some atoms \<Rightarrow> Some (replace_all atoms replacement [] text))"

definition replaceTypo :: "string \<Rightarrow> string \<Rightarrow> string \<times> world \<Rightarrow> (string \<times> world) option" where
  \<comment> \<open>the working copy and the host state, before and after\<close>
  "replaceTypo original replacement st =
     (case regex_replace original replacement (fst st) of
        None \<Rightarrow> None
      | Some correctedText \<Rightarrow> Some (correctedText, updateCellWithCorrectedText correctedText (snd st)))"

text \<open>The substitution the specification describes: every occurrence of the literal word,
  from left to right, is replaced by the replacement as it is written.\<close>

function spec_literal_replace :: "string \<Rightarrow> string \<Rightarrow> string \<Rightarrow> string" where
  "spec_literal_replace w r s =
     (if w \<noteq> [] \<and> prefix w s then r @ spec_literal_replace w r (drop (length w) s)
      else case s of [] \<Rightarrow> [] | c # cs \<Rightarrow> c # spec_literal_replace w r cs)"
  by pat_completeness auto
termination
  by (relation "measure (\<lambda>(w, r, s). length s)") (auto simp: prefix_def)

declare spec_literal_replace.simps [simp del]

section \<open>A reference parser for JSON texts\<close>

text \<open>
  \<^verbatim>\<open>JSON.parse\<close> stays a parameter of the functions above. For the concrete replies of
  the specification it is instantiated with \<open>json_parse\<close>, a recursive-descent parser of the
  JSON grammar (ECMA-404) over the code units of the model; a \<^verbatim>\<open>\u\<close> escape of a code
  unit above 255 has no value here. The recursion is bounded by twice the length of the
  text, which no nesting can exceed.
\<close>

definition json_ws :: "char \<Rightarrow> bool" where
  "json_ws c \<longleftrightarrow> c \<in> set [CHR 0x20, CHR 0x09, CHR 0x0A, CHR 0x0D]"

definition is_digit :: "char \<Rightarrow> bool" where
  "is_digit c \<longleftrightarrow> 48 \<le> (of_char c :: nat) \<and> (of_char c :: nat) \<le> 57"

definition digits_value :: "string \<Rightarrow> nat" where
  "digits_value ds = foldl (\<lambda>a c. 10 * a + (of_char c - 48)) 0 ds"

definition hex_value :: "char \<Rightarrow> nat option" where
  "hex_value c =
     (let n = (of_char c :: nat)
      in if 48 \<le> n \<and> n \<le> 57 then Some (n - 48)
         else if 65 \<le> n \<and> n \<le> 70 then Some (n - 55)
         else if 97 \<le> n \<and> n \<le> 102 then Some (n - 87)
         else None)"

definition unescape :: "string \<Rightarrow> (char \<times> nat) option" where
  \<comment> \<open>the character an escape stands for, and the length of the escape behind the backslash\<close>
  "unescape cs =
     (case cs of
        [] \<Rightarrow> None
      | e # r \<Rightarrow>
          if e = CHR 0x22 \<or> e = CHR 0x5C \<or> e = CHR ''/'' then Some (e, 1)
          else if e = CHR ''b'' then Some (CHR 0x08, 1)
          else if e = CHR ''f'' then Some (CHR 0x0C, 1)
          else if e = CHR ''n'' then Some (CHR 0x0A, 1)
          else if e = CHR ''r'' then Some (CHR 0x0D, 1)
          else if e = CHR ''t'' then Some (CHR 0x09, 1)
          else if e = CHR ''u'' then
            (case r of
               a # b # c # d # _ \<Rightarrow>
                 (case (hex_value a, hex_value b, hex_value c, hex_value d) of
                    (Some x3, Some x2, Some x1, Some x0) \<Rightarrow>
                      if x3 = 0 \<and> x2 = 0 then Some (char_of (16 * x1 + x0), 5) else None
                  | _ \<Rightarrow> None)
             | _ \<Rightarrow> None)
          else None)"

text \<open>The characters of a string literal behind its opening quote, up to the closing one.\<close>

function parse_chars :: "string \<Rightarrow> (string \<times> string) option" where
  "parse_chars s =
     (case s of
        [] \<Rightarrow> None
      | c # cs \<Rightarrow>
          if c = CHR 0x22 then Some ([], cs)
          else if (of_char c :: nat) < 32 then None
          else if c = CHR 0x5C then
            (case unescape cs of
               None \<Rightarrow> None
             | Some (ch, k) \<Rightarrow>
                 (case parse_chars (drop k cs) of
                    None \<Rightarrow> None
                  | Some (str, rest) \<Rightarrow> Some (ch # str, rest)))
          else (case parse_chars cs of
                  None \<Rightarrow> None
                | Some (str, rest) \<Rightarrow> Some (c # str, rest)))"
  by pat_completeness auto
termination
  by (relation "measure length") auto

declare parse_chars.simps [simp del]

definition parse_exponent :: "string \<Rightarrow> (int \<times> string) option" where
  "parse_exponent s =
     (case s of
        [] \<Rightarrow> Some (0, s)
      | e # r \<Rightarrow>
          if e = CHR ''e'' \<or> e = CHR ''E'' then
            (let neg = (case r of [] \<Rightarrow> False | g # _ \<Rightarrow> g = CHR ''-'');
                 r' = (case r of [] \<Rightarrow> r | g # t \<Rightarrow> if g = CHR ''-'' \<or> g = CHR ''+'' then t else r);
                 ds = takeWhile is_digit r'
             in if ds = [] then None
                else Some ((if neg then - int (digits_value ds) else int (digits_value ds)),
                           dropWhile is_digit r'))
          else Some (0, s))"

definition parse_fraction :: "string \<Rightarrow> (string \<times> string) option" where
  "parse_fraction s =
     (case s of
        [] \<Rightarrow> Some ([], s)
      | p # r \<Rightarrow>
          if p = CHR ''.'' then
            (if takeWhile is_digit r = [] then None
             else Some (takeWhile is_digit r, dropWhile is_digit r))
          else Some ([], s))"

definition parse_number :: "string \<Rightarrow> (rat \<times> string) option" where
  "parse_number s =
     (let neg = (case s of [] \<Rightarrow> False | g # _ \<Rightarrow> g = CHR ''-'');
          s1 = (if neg then tl s else s)
      in case s1 of
           [] \<Rightarrow> None
         | d # r1 \<Rightarrow>
             if \<not> is_digit d then None
             else let ip = (if d = CHR ''0'' then [d] else takeWhile is_digit s1);
                      s2 = (if d = CHR ''0'' then r1 else dropWhile is_digit s1)
                  in case parse_fraction s2 of
                       None \<Rightarrow> None
                     | Some (fp, s3) \<Rightarrow>
                         (case parse_exponent s3 of
                            None \<Rightarrow> None
                          | Some (ex, s4) \<Rightarrow>
                              Some ((if neg then - 1 else 1) * of_nat (digits_value (ip @ fp))
                                      * 10 powi (ex - int (length fp)), s4)))"

fun parse_value :: "nat \<Rightarrow> string \<Rightarrow> (json \<times> string) option"
  and parse_elements :: "nat \<Rightarrow> string \<Rightarrow> (json list \<times> string) option"
  and parse_members :: "nat \<Rightarrow> string \<Rightarrow> ((string \<times> json) list \<times> string) option" where
  "parse_value 0 s = None"
| "parse_value (Suc n) s =
     (case dropWhile json_ws s of
        [] \<Rightarrow> None
      | c # r \<Rightarrow>
          if c = CHR ''{'' then
            (case dropWhile json_ws r of
               [] \<Rightarrow> None
             | c' # r' \<Rightarrow>
                 if c' = CHR ''}'' then Some (JObj [], r')
                 else (case parse_members n r of
                         None \<Rightarrow> None
                       | Some (kvs, rest) \<Rightarrow> Some (JObj kvs, rest)))
          else if c = CHR ''['' then
            (case dropWhile json_ws r of
               [] \<Rightarrow> None
             | c' # r' \<Rightarrow>
                 if c' = CHR '']'' then Some (JArr [], r')
                 else (case parse_elements n r of
                         None \<Rightarrow> None
                       | Some (vs, rest) \<Rightarrow> Some (JArr vs, rest)))
          else if c = CHR 0x22 then
            (case parse_chars r of
               None \<Rightarrow> None
             | Some (str, rest) \<Rightarrow> Some (JStr str, rest))
          else if prefix ''true'' (c # r) then Some (JBool True, drop 4 (c # r))
          else if prefix ''false'' (c # r) then Some (JBool False, drop 5 (c # r))
          else if prefix ''null'' (c # r) then Some (JNull, drop 4 (c # r))
          else (case parse_number (c # r) of
                  None \<Rightarrow> None
                | Some (q, rest) \<Rightarrow> Some (JNum q, rest)))"
| "parse_elements 0 s = None"
| "parse_elements (Suc n) s =
     (case parse_value n s of
        None \<Rightarrow> None
      | Some (v, r) \<Rightarrow>
          (case dropWhile json_ws r of
             [] \<Rightarrow> None
           | c # r' \<Rightarrow>
               if c = CHR '','' then
                 (case parse_elements n r' of
                    None \<Rightarrow> None
                  | Some (vs, rest) \<Rightarrow> Some (v # vs, rest))
               else if c = CHR '']'' then Some ([v], r')
               else None))"
| "parse_members 0 s = None"
| "parse_members (Suc n) s =
     (case dropWhile json_ws s of
        [] \<Rightarrow> None
      | q # r \<Rightarrow>
          if q \<noteq> CHR 0x22 then None
          else (case parse_chars r of
                  None \<Rightarrow> None
                | Some (k, r1) \<Rightarrow>
                    (case dropWhile json_ws r1 of
                       [] \<Rightarrow> None
                     | col # r2 \<Rightarrow>
                         if col \<noteq> CHR '':'' then None
                         else (case parse_value n r2 of
                                 None \<Rightarrow> None
                               | Some (v, r3) \<Rightarrow>
                                   (case dropWhile json_ws r3 of
                                      [] \<Rightarrow> None
                                    | c # r4 \<Rightarrow>
                                        if c = CHR '','' then
                                          (case parse_members n r4 of
                                             None \<Rightarrow> None
                                           | Some (kvs, rest) \<Rightarrow> Some ((k, v) # kvs, rest))
                                        else if c = CHR ''}'' then Some ([(k, v)], r4)
                                        else None)))))"

definition json_parse :: "string \<Rightarrow> json option" where
  "json_parse s =
     (case parse_value (2 * length s + 2) s of
        None \<Rightarrow> None
      | Some (v, rest) \<Rightarrow> if dropWhile json_ws rest = [] then Some v else None)"

section \<open>The three-stage extraction of the specification\<close>

text \<open>
  The specification describes the interpreter by three stages, tried in order until one
  yields a valid JSON object: the content of a fenced block tagged as JSON, the first
  top-level \<^verbatim>\<open>{...}\<close> found by brace matching, the whole reply.
\<close>

definition spec_fenced_block :: "string \<Rightarrow> string option" where
  "spec_fenced_block response =
     (case find_sub fence_json response of
        None \<Rightarrow> None
      | Some (pre, rest) \<Rightarrow>
          (case find_sub fence rest of
             None \<Rightarrow> None
           | Some (body, post) \<Rightarrow> Some (trim body)))"

text \<open>Brace matching: behind an opening brace at depth \<open>d\<close>, the text up to the brace
  that closes depth 1.\<close>

fun brace_scan :: "nat \<Rightarrow> string \<Rightarrow> string option" where
  "brace_scan d [] = None"
| "brace_scan d (c # cs) =
     (if c = CHR ''{'' then map_option ((#) c) (brace_scan (Suc d) cs)
      else if c = CHR ''}'' then
        (if d \<le> 1 then Some [c] else map_option ((#) c) (brace_scan (d - 1) cs))
      else map_option ((#) c) (brace_scan d cs))"

definition spec_first_object :: "string \<Rightarrow> string option" where
  "spec_first_object response =
     (case find_sub ''{'' response of
        None \<Rightarrow> None
      | Some (pre, rest) \<Rightarrow> map_option ((#) CHR ''{'') (brace_scan 1 rest))"

definition is_object :: "json option \<Rightarrow> bool" where
  "is_object v = (case v of Some (JObj kvs) \<Rightarrow> True | _ \<Rightarrow> False)"

fun first_valid :: "(string \<Rightarrow> json option) \<Rightarrow> string option list \<Rightarrow> json option" where
  "first_valid JSON_parse [] = None"
| "first_valid JSON_parse (None # stages) = first_valid JSON_parse stages"
| "first_valid JSON_parse (Some t # stages) =
     (if is_object (JSON_parse t) then JSON_parse t else first_valid JSON_parse stages)"

definition spec_parseReply :: "(string \<Rightarrow> json option) \<Rightarrow> string \<Rightarrow> js_error + json" where
  "spec_parseReply JSON_parse response =
     (case first_valid JSON_parse
             [spec_fenced_block response, spec_first_object response, Some response] of
        None \<Rightarrow> Inl parse_failed
      | Some result \<Rightarrow> Inr result)"

section \<open>A concrete state for the examples\<close>

definition sheet7 :: sheet where
  "sheet7 = \<lparr>sheetId = 7, cells = (\<lambda>a. if a = ''B2'' then Some ''I teh went to the the store'' else None)\<rparr>"

definition rangeB2 :: range where
  "rangeB2 = \<lparr>rangeSheetId = 7, a1Notation = ''B2''\<rparr>"

definition world1 :: world where
  \<comment> \<open>a key is configured, one sheet, nothing cached, nothing shown yet\<close>
  "world1 = world0\<lparr>OPENAI_API_KEY := Some ''sk-test'', sheets := [sheet7]\<rparr>"

definition completion_body :: "string \<Rightarrow> string" where
  \<comment> \<open>the body of a 200 response whose first choice has the given content, written as a
      JSON string literal without its quotes\<close>
  \<open>completion_body content_literal =
     ''{"choices":[{"message":{"role":"assistant","content":"'' @ content_literal @ ''"}}]}''\<close>

definition empty_typos_literal :: string where
  \<comment> \<open>the reply \<^verbatim>\<open>{"typos":[]}\<close> as it is escaped inside a JSON string\<close>
  \<open>empty_typos_literal = ''{'' @ [CHR 0x5C] @ ''"typos'' @ [CHR 0x5C] @ ''":[]}''\<close>

definition typo_teh_no_replacements :: json where
  \<comment> \<open>the entry \<^verbatim>\<open>{"word":"teh","replacements":[]}\<close>\<close>
  "typo_teh_no_replacements = JObj [(''word'', JStr ''teh''), (''replacements'', JArr [])]"

definition fenced_reply :: string where
  \<comment> \<open>a reply with a fenced block tagged as JSON\<close>
  \<open>fenced_reply = ''Here you go: ```json'' @ [CHR 0x0A] @ ''{"typos":[]}'' @ [CHR 0x0A] @ ''``` Done.''\<close>

definition braces_reply :: string where
  \<comment> \<open>a reply with one object inside prose\<close>
  \<open>braces_reply = ''Result: {"typos":[]} (end)''\<close>

definition two_objects_reply :: string where
  \<comment> \<open>a reply with two objects\<close>
  \<open>two_objects_reply = ''{"typos":[]} {}''\<close>

section \<open>Properties of the dictionary and of the similarity check\<close>

lemma trim_simple [simp]: "trim '' cat '' = ''cat''" "trim ''dog'' = ''dog''" "trim ''   '' = []"
  by (simp_all add: trim_def is_space_def)

text \<open>
  C7. The similarity check is symmetric: \<open>similarWords a b\<close> and \<open>similarWords b a\<close>
  are the same truth value, for all strings.
\<close>

theorem similarWords_symmetric: "similarWords a b = similarWords b a"
  by (auto simp: similarWords_def Let_def)

text \<open>
  C4, as the code has it. The word is trimmed first. With \<open>D\<close> the stored dictionary and
  \<open>w'\<close> the trimmed word: when \<open>w'\<close> is not empty and not in \<open>D\<close>, the call returns and
  persists \<open>D @ [w']\<close>, of size \<open>|D| + 1\<close> and with \<open>D\<close> as its first entries in their
  order; when \<open>w'\<close> is empty or in \<open>D\<close>, it returns \<open>D\<close> and writes nothing.
\<close>

theorem addToCustomDictionary_appends_trimmed:
  "(trim word \<noteq> [] \<and> trim word \<notin> set (getCustomDictionary w) \<longrightarrow>
      fst (addToCustomDictionary word w) = getCustomDictionary w @ [trim word] \<and>
      getCustomDictionary (snd (addToCustomDictionary word w)) = getCustomDictionary w @ [trim word] \<and>
      length (fst (addToCustomDictionary word w)) = length (getCustomDictionary w) + 1 \<and>
      take (length (getCustomDictionary w)) (fst (addToCustomDictionary word w)) = getCustomDictionary w) \<and>
   (trim word = [] \<or> trim word \<in> set (getCustomDictionary w) \<longrightarrow>
      addToCustomDictionary word w = (getCustomDictionary w, w))"
  by (simp add: addToCustomDictionary_def getCustomDictionary_def Let_def)

text \<open>
  C4, witness: adding \<^verbatim>\<open>" dog"\<close> to the dictionary \<^verbatim>\<open>["cat"]\<close> appends \<^verbatim>\<open>"dog"\<close>;
  adding \<^verbatim>\<open>" cat "\<close> or a blank word leaves it as it is.
\<close>

theorem addToCustomDictionary_appends_trimmed_witness:
  "fst (addToCustomDictionary '' dog'' (world0\<lparr>CUSTOM_DICTIONARY := Some [''cat'']\<rparr>)) = [''cat'', ''dog''] \<and>
   getCustomDictionary (snd (addToCustomDictionary '' dog'' (world0\<lparr>CUSTOM_DICTIONARY := Some [''cat'']\<rparr>)))
     = [''cat'', ''dog''] \<and>
   addToCustomDictionary '' cat '' (world0\<lparr>CUSTOM_DICTIONARY := Some [''cat'']\<rparr>)
     = ([''cat''], world0\<lparr>CUSTOM_DICTIONARY := Some [''cat'']\<rparr>) \<and>
   addToCustomDictionary ''   '' (world0\<lparr>CUSTOM_DICTIONARY := Some [''cat'']\<rparr>)
     = ([''cat''], world0\<lparr>CUSTOM_DICTIONARY := Some [''cat'']\<rparr>)"
  using addToCustomDictionary_appends_trimmed [of "'' dog''" "world0\<lparr>CUSTOM_DICTIONARY := Some [''cat'']\<rparr>"]
        addToCustomDictionary_appends_trimmed [of "'' cat ''" "world0\<lparr>CUSTOM_DICTIONARY := Some [''cat'']\<rparr>"]
        addToCustomDictionary_appends_trimmed [of "''   ''" "world0\<lparr>CUSTOM_DICTIONARY := Some [''cat'']\<rparr>"]
  by (simp add: getCustomDictionary_def world0_def trim_def is_space_def)

text \<open>
  C4, as stated, fails: the word \<^verbatim>\<open>" cat "\<close> is not blank and is not an entry of the
  dictionary \<^verbatim>\<open>["cat"]\<close>, yet the call returns \<^verbatim>\<open>["cat"]\<close>, of size 1 and not 2.
\<close>

theorem addToCustomDictionary_untrimmed_counterexample:
  "trim '' cat '' \<noteq> [] \<and>
   '' cat '' \<notin> set (getCustomDictionary (world0\<lparr>CUSTOM_DICTIONARY := Some [''cat'']\<rparr>)) \<and>
   fst (addToCustomDictionary '' cat '' (world0\<lparr>CUSTOM_DICTIONARY := Some [''cat'']\<rparr>)) = [''cat''] \<and>
   length (fst (addToCustomDictionary '' cat '' (world0\<lparr>CUSTOM_DICTIONARY := Some [''cat'']\<rparr>)))
     \<noteq> length (getCustomDictionary (world0\<lparr>CUSTOM_DICTIONARY := Some [''cat'']\<rparr>)) + 1"
  by (simp add: addToCustomDictionary_def getCustomDictionary_def world0_def Let_def)

text \<open>
  C5. With \<open>D\<close> the stored dictionary: for \<open>0 \<le> i < |D|\<close> the call returns and persists
  \<open>D\<close> without its entry at position \<open>i\<close> (size \<open>|D| - 1\<close>, the entries before \<open>i\<close> at
  their positions, those behind it one position earlier); for any other \<open>i\<close> it returns
  \<open>D\<close> and writes nothing.
\<close>

theorem removeFromCustomDictionary_removes_position:
  "(0 \<le> i \<and> i < int (length (getCustomDictionary w)) \<longrightarrow>
      fst (removeFromCustomDictionary i w)
        = take (nat i) (getCustomDictionary w) @ drop (Suc (nat i)) (getCustomDictionary w) \<and>
      getCustomDictionary (snd (removeFromCustomDictionary i w)) = fst (removeFromCustomDictionary i w) \<and>
      length (fst (removeFromCustomDictionary i w)) = length (getCustomDictionary w) - 1 \<and>
      (\<forall>j. j < nat i \<longrightarrow> fst (removeFromCustomDictionary i w) ! j = getCustomDictionary w ! j) \<and>
      (\<forall>j. nat i \<le> j \<and> j < length (getCustomDictionary w) - 1 \<longrightarrow>
           fst (removeFromCustomDictionary i w) ! j = getCustomDictionary w ! Suc j)) \<and>
   (\<not> (0 \<le> i \<and> i < int (length (getCustomDictionary w))) \<longrightarrow>
      removeFromCustomDictionary i w = (getCustomDictionary w, w))"
proof -
  let ?D = "getCustomDictionary w"
  have valid: "fst (removeFromCustomDictionary i w) = take (nat i) ?D @ drop (Suc (nat i)) ?D"
    "getCustomDictionary (snd (removeFromCustomDictionary i w)) = fst (removeFromCustomDictionary i w)"
    if "0 \<le> i" "i < int (length ?D)"
    using that by (simp_all add: removeFromCustomDictionary_def splice1_def Let_def getCustomDictionary_def)
  have len: "length (take (nat i) ?D @ drop (Suc (nat i)) ?D) = length ?D - 1"
    if "0 \<le> i" "i < int (length ?D)"
    using that by auto
  have before: "(take (nat i) ?D @ drop (Suc (nat i)) ?D) ! j = ?D ! j"
    if "0 \<le> i" "i < int (length ?D)" "j < nat i" for j
    using that by (simp add: nth_append)
  have behind: "(take (nat i) ?D @ drop (Suc (nat i)) ?D) ! j = ?D ! Suc j"
    if "0 \<le> i" "i < int (length ?D)" "nat i \<le> j" "j < length ?D - 1" for j
  proof -
    have l: "length (take (nat i) ?D) = nat i" using that by simp
    have "Suc (nat i) + (j - nat i) = Suc j" using that by simp
    then show ?thesis using that l by (simp add: nth_append)
  qed
  have invalid: "removeFromCustomDictionary i w = (?D, w)" if "\<not> (0 \<le> i \<and> i < int (length ?D))"
    using that by (auto simp: removeFromCustomDictionary_def Let_def)
  show ?thesis
    using valid len before behind invalid by metis
qed

text \<open>
  C5, witness: position 1 of \<^verbatim>\<open>["a", "b", "c"]\<close> is removed; positions 3 and -1 are
  outside the list and change nothing.
\<close>

theorem removeFromCustomDictionary_removes_position_witness:
  "fst (removeFromCustomDictionary 1 (world0\<lparr>CUSTOM_DICTIONARY := Some [''a'', ''b'', ''c'']\<rparr>)) = [''a'', ''c''] \<and>
   getCustomDictionary (snd (removeFromCustomDictionary 1 (world0\<lparr>CUSTOM_DICTIONARY := Some [''a'', ''b'', ''c'']\<rparr>)))
     = [''a'', ''c''] \<and>
   removeFromCustomDictionary 3 (world0\<lparr>CUSTOM_DICTIONARY := Some [''a'', ''b'', ''c'']\<rparr>)
     = ([''a'', ''b'', ''c''], world0\<lparr>CUSTOM_DICTIONARY := Some [''a'', ''b'', ''c'']\<rparr>) \<and>
   removeFromCustomDictionary (- 1) (world0\<lparr>CUSTOM_DICTIONARY := Some [''a'', ''b'', ''c'']\<rparr>)
     = ([''a'', ''b'', ''c''], world0\<lparr>CUSTOM_DICTIONARY := Some [''a'', ''b'', ''c'']\<rparr>)"
  using removeFromCustomDictionary_removes_position [of 1 "world0\<lparr>CUSTOM_DICTIONARY := Some [''a'', ''b'', ''c'']\<rparr>"]
        removeFromCustomDictionary_removes_position [of 3 "world0\<lparr>CUSTOM_DICTIONARY := Some [''a'', ''b'', ''c'']\<rparr>"]
        removeFromCustomDictionary_removes_position [of "- 1" "world0\<lparr>CUSTOM_DICTIONARY := Some [''a'', ''b'', ''c'']\<rparr>"]
  by (simp add: getCustomDictionary_def world0_def)

text \<open>
  C6. Adding the same word a second time returns a dictionary of the same length as the
  first call did; indeed the second call returns the same list and leaves the store as
  the first call left it.
\<close>

theorem addToCustomDictionary_idempotent:
  "length (fst (addToCustomDictionary word (snd (addToCustomDictionary word w))))
     = length (fst (addToCustomDictionary word w)) \<and>
   addToCustomDictionary word (snd (addToCustomDictionary word w))
     = (fst (addToCustomDictionary word w), snd (addToCustomDictionary word w))"
  by (auto simp: addToCustomDictionary_def getCustomDictionary_def Let_def split: option.splits)

section \<open>Properties of the write-back\<close>

text \<open>
  C10. The two write-back operations are the same function of the text and the host
  state: the same cache entries are read, the same sheet is resolved and the same cell is
  written. Both leave the state as it is when a cache entry is absent or empty, and when
  no sheet has the cached identifier.
\<close>

theorem write_back_operations_equal:
  "updateCellWithCorrectedText text w = updateCellWithImprovedGrammar text w \<and>
   (falsy_entry (userCache w ''ACTIVE_RANGE_A1'') \<or> falsy_entry (userCache w ''ACTIVE_SHEET_ID'')
      \<longrightarrow> updateCellWithImprovedGrammar text w = w) \<and>
   (\<forall>sid. userCache w ''ACTIVE_SHEET_ID'' = Some sid \<and> getSheetById sid (sheets w) = None
      \<longrightarrow> updateCellWithImprovedGrammar text w = w)"
  by (auto simp: updateCellWithCorrectedText_def updateCellWithImprovedGrammar_def Let_def
           split: option.splits)

text \<open>
  C10, witness: with an empty cache, and with a cached sheet identifier that no sheet
  has, both operations return the state unchanged.
\<close>

theorem write_back_operations_equal_witness:
  "updateCellWithCorrectedText ''fixed'' world0 = world0 \<and>
   updateCellWithImprovedGrammar ''fixed'' world0 = world0 \<and>
   updateCellWithCorrectedText ''fixed''
     (world0\<lparr>userCache := (\<lambda>k. if k = ''ACTIVE_RANGE_A1'' then Some ''B2''
                              else if k = ''ACTIVE_SHEET_ID'' then Some ''7'' else None)\<rparr>)
   = world0\<lparr>userCache := (\<lambda>k. if k = ''ACTIVE_RANGE_A1'' then Some ''B2''
                              else if k = ''ACTIVE_SHEET_ID'' then Some ''7'' else None)\<rparr>"
  using write_back_operations_equal [of "''fixed''" world0]
        write_back_operations_equal [of "''fixed''"
          "world0\<lparr>userCache := (\<lambda>k. if k = ''ACTIVE_RANGE_A1'' then Some ''B2''
                              else if k = ''ACTIVE_SHEET_ID'' then Some ''7'' else None)\<rparr>"]
  by (simp add: world0_def falsy_entry_def)

section \<open>Properties of the two actions\<close>

lemma toString_nat_401: "toString_nat 401 = ''401''"
  by code_simp

text \<open>
  C9. When a key is configured and the response has a status other than 200, the call
  fails with an error whose message holds the status code in decimal and the raw body;
  both actions catch it and show it as one alert, and nothing else of the state changes:
  no sheet is written, nothing is cached, no dialog is shown.
\<close>

theorem non_200_is_api_error:
  assumes key: "OPENAI_API_KEY w = Some apiKey" "apiKey \<noteq> []"
    and response: "\<And>req. fetch req = HttpResponse responseCode responseBody"
    and code: "responseCode \<noteq> 200"
  shows "callOpenAI JSON_parse fetch apiKey messages
           = Inl (Error (''API Error '' @ toString_nat responseCode @ '': '' @ responseBody)) \<and>
         findTypos JSON_parse fetch promptResult text r w
           = w\<lparr>ui := ui w @ [Alert (''Error: API Error '' @ toString_nat responseCode @ '': '' @ responseBody)]\<rparr> \<and>
         improveGrammar JSON_parse fetch promptResult text r w
           = w\<lparr>ui := ui w @ [Alert (''Error: API Error '' @ toString_nat responseCode @ '': '' @ responseBody)]\<rparr> \<and>
         sheets (findTypos JSON_parse fetch promptResult text r w) = sheets w \<and>
         sheets (improveGrammar JSON_parse fetch promptResult text r w) = sheets w"
proof -
  have call: "callOpenAI JSON_parse fetch apiKey ms = Inl (api_error responseCode responseBody)" for ms
    using response code by (simp add: callOpenAI_def)
  have typos: "findTypos JSON_parse fetch promptResult text r w
                 = alert_error (api_error responseCode responseBody) w"
    using key by (simp add: findTypos_def findTypos_try_def call Let_def)
  have grammar: "improveGrammar JSON_parse fetch promptResult text r w
                 = alert_error (api_error responseCode responseBody) w"
    using key by (simp add: improveGrammar_def improveGrammar_try_def call Let_def)
  have shown: "alert_error (api_error responseCode responseBody) w
                 = w\<lparr>ui := ui w @ [Alert (''Error: API Error '' @ toString_nat responseCode @ '': '' @ responseBody)]\<rparr>"
    by (simp add: alert_error_def api_error_def alert_def)
  show ?thesis
    using call typos grammar shown by (simp add: api_error_def)
qed

text \<open>
  C9, witness: status 401 with the body \<^verbatim>\<open>Unauthorized\<close> gives the single alert
  \<^verbatim>\<open>Error: API Error 401: Unauthorized\<close> and leaves the sheet as it was.
\<close>

theorem non_200_is_api_error_witness:
  "callOpenAI json_parse (\<lambda>req. HttpResponse 401 ''Unauthorized'') ''sk-test'' (typoMessages ''english'' ''I teh went'')
     = Inl (Error ''API Error 401: Unauthorized'') \<and>
   findTypos json_parse (\<lambda>req. HttpResponse 401 ''Unauthorized'') (False, []) ''I teh went'' rangeB2 world1
     = world1\<lparr>ui := [Alert ''Error: API Error 401: Unauthorized'']\<rparr> \<and>
   improveGrammar json_parse (\<lambda>req. HttpResponse 401 ''Unauthorized'') (False, []) ''I teh went'' rangeB2 world1
     = world1\<lparr>ui := [Alert ''Error: API Error 401: Unauthorized'']\<rparr> \<and>
   sheets (findTypos json_parse (\<lambda>req. HttpResponse 401 ''Unauthorized'') (False, []) ''I teh went'' rangeB2 world1)
     = [sheet7]"
proof -
  have k: "OPENAI_API_KEY world1 = Some ''sk-test''" "''sk-test'' \<noteq> []"
    by (simp_all add: world1_def world0_def)
  have c: "(401::nat) \<noteq> 200" by simp
  have u: "ui world1 = []" "sheets world1 = [sheet7]" by (simp_all add: world1_def world0_def)
  show ?thesis
    using non_200_is_api_error [of world1 "''sk-test''" "\<lambda>req. HttpResponse 401 ''Unauthorized''" 401
            "''Unauthorized''" json_parse "typoMessages ''english'' ''I teh went''" "(False, [])"
            "''I teh went''" rangeB2, OF k refl c]
    by (simp add: toString_nat_401 u)
qed

text \<open>
  C8. When a key is configured, the response has status 200, and the reply (a non-empty
  string) parses to an object whose \<^verbatim>\<open>typos\<close> is the empty list, the interpreter returns
  that object, it counts as "no typos", and the action shows the one neutral alert
  \<^verbatim>\<open>No typos found in the selected text.\<close>: no error alert, no dialog, and the cache and
  the sheets stay as they are.
\<close>

theorem empty_typos_is_no_findings:
  assumes key: "OPENAI_API_KEY w = Some apiKey" "apiKey \<noteq> []"
    and response: "\<And>req. fetch req = HttpResponse 200 responseBody"
    and body: "JSON_parse responseBody = Some parsedResponse"
    and content: "content_of parsedResponse = Inr (Some (JStr reply))" "reply \<noteq> []"
    and parsed: "JSON_parse (candidate reply) = Some (JObj members)"
    and typos: "lookup_member members ''typos'' = Some (JArr [])"
  shows "parseReply JSON_parse (Some (JStr reply)) = Inr (JObj members) \<and>
         no_typos (JObj members) \<and>
         findTypos JSON_parse fetch promptResult text r w
           = w\<lparr>ui := ui w @ [Alert ''No typos found in the selected text.'']\<rparr>"
proof -
  have call: "callOpenAI JSON_parse fetch apiKey ms = Inr (Some (JStr reply))" for ms
    using response body content by (simp add: callOpenAI_def)
  have reply: "parseReply JSON_parse (Some (JStr reply)) = Inr (JObj members)"
    using parsed by (simp add: parseReply_def)
  have none: "no_typos (JObj members)"
    using typos by (simp add: no_typos_def)
  have "findTypos_try JSON_parse fetch apiKey (language_of w) (getCustomDictionary w) text r w
          = Inr (alert ''No typos found in the selected text.'' w)"
    using content(2) by (simp add: findTypos_try_def call reply none)
  then have "findTypos JSON_parse fetch promptResult text r w
          = alert ''No typos found in the selected text.'' w"
    using key by (simp add: findTypos_def Let_def)
  then show ?thesis
    using reply none by (simp add: alert_def)
qed

text \<open>
  C8, witness: the reply \<^verbatim>\<open>{"typos":[]}\<close> of the specification, delivered as the content
  of the first choice of a 200 response.
\<close>

theorem empty_typos_is_no_findings_witness:
  \<open>parseReply json_parse (Some (JStr ''{"typos":[]}'')) = Inr (JObj [(''typos'', JArr [])]) \<and>
   no_typos (JObj [(''typos'', JArr [])]) \<and>
   findTypos json_parse (\<lambda>req. HttpResponse 200 (completion_body empty_typos_literal)) (False, [])
       ''I went to the store'' rangeB2 world1
     = world1\<lparr>ui := [Alert ''No typos found in the selected text.'']\<rparr>\<close>
proof -
  have k: "OPENAI_API_KEY world1 = Some ''sk-test''" "''sk-test'' \<noteq> []"
    by (simp_all add: world1_def world0_def)
  have b: \<open>json_parse (completion_body empty_typos_literal)
     = Some (JObj [(''choices'', JArr [JObj [(''message'',
          JObj [(''role'', JStr ''assistant''), (''content'', JStr ''{"typos":[]}'')])]])])\<close>
    by code_simp
  have c: \<open>content_of (JObj [(''choices'', JArr [JObj [(''message'',
          JObj [(''role'', JStr ''assistant''), (''content'', JStr ''{"typos":[]}'')])]])])
     = Inr (Some (JStr ''{"typos":[]}''))\<close>
    by (simp add: content_of_def lookup_member_def)
  have n: \<open>''{"typos":[]}'' \<noteq> []\<close> by simp
  have p: \<open>json_parse (candidate ''{"typos":[]}'') = Some (JObj [(''typos'', JArr [])])\<close>
    by code_simp
  have t: "lookup_member [(''typos'', JArr [])] ''typos'' = Some (JArr [])"
    by (simp add: lookup_member_def)
  have u: "ui world1 = []" by (simp add: world1_def world0_def)
  show ?thesis
    using empty_typos_is_no_findings [of world1 "''sk-test''"
            "\<lambda>req. HttpResponse 200 (completion_body empty_typos_literal)"
            "completion_body empty_typos_literal" json_parse _ _ _ "(False, [])"
            "''I went to the store''" rangeB2, OF k refl b c n p t]
    by (simp add: u)
qed

section \<open>Properties of the suggestion dialog\<close>

lemma addDictionaryWords_string:
  "\<exists>added. addDictionaryWords (Some (JStr wd)) dict acc = Inr (acc @ added) \<and>
     distinct added \<and>
     set added = {JStr d | d. d \<in> set dict \<and> similarWords wd d} - set acc \<and>
     subseq added (map JStr dict)"
proof (induction dict arbitrary: acc)
  case Nil
  then show ?case by simp
next
  case (Cons d ds)
  show ?case
  proof (cases "similarWords wd d \<and> JStr d \<notin> set acc")
    case True
    from Cons.IH [of "acc @ [JStr d]"] obtain added where a:
      "addDictionaryWords (Some (JStr wd)) ds (acc @ [JStr d]) = Inr ((acc @ [JStr d]) @ added)"
      "distinct added"
      "set added = {JStr e | e. e \<in> set ds \<and> similarWords wd e} - set (acc @ [JStr d])"
      "subseq added (map JStr ds)"
      by blast
    have "addDictionaryWords (Some (JStr wd)) (d # ds) acc = Inr (acc @ (JStr d # added))"
      using True a(1) by simp
    moreover have "distinct (JStr d # added)"
      using a(2,3) by auto
    moreover have "set (JStr d # added) = {JStr e | e. e \<in> set (d # ds) \<and> similarWords wd e} - set acc"
      using True a(3) by auto
    moreover have "subseq (JStr d # added) (map JStr (d # ds))"
      using a(4) by simp
    ultimately show ?thesis by blast
  next
    case False
    from Cons.IH [of acc] obtain added where a:
      "addDictionaryWords (Some (JStr wd)) ds acc = Inr (acc @ added)"
      "distinct added"
      "set added = {JStr e | e. e \<in> set ds \<and> similarWords wd e} - set acc"
      "subseq added (map JStr ds)"
      by blast
    have "addDictionaryWords (Some (JStr wd)) (d # ds) acc = Inr (acc @ added)"
      using False a(1) by auto
    moreover have "set added = {JStr e | e. e \<in> set (d # ds) \<and> similarWords wd e} - set acc"
      using False a(3) by auto
    moreover have "subseq added (map JStr (d # ds))"
      using a(4) by (simp add: list_emb_Cons)
    ultimately show ?thesis using a(2) by blast
  qed
qed

lemma typoEntries_nth:
  "typoEntries dict ts = Inr entries \<Longrightarrow>
     length entries = length ts \<and> (\<forall>i<length ts. typoEntry dict (ts ! i) = Inr (entries ! i))"
proof (induction ts arbitrary: entries)
  case Nil
  then show ?case by simp
next
  case (Cons t ts)
  from Cons.prems obtain e es where e: "typoEntry dict t = Inr e" "typoEntries dict ts = Inr es"
    "entries = e # es"
    by (auto split: sum.splits)
  from Cons.IH [OF e(2)] have ih: "length es = length ts"
    "\<forall>i<length ts. typoEntry dict (ts ! i) = Inr (es ! i)" by simp_all
  show ?case
    using e(1,3) ih by (auto simp: nth_Cons split: nat.splits)
qed

lemma typoEntry_object:
  assumes "lookup_member members ''word'' = Some (JStr wd)"
    and "lookup_member members ''replacements'' = Some (JArr reps)"
  shows "\<exists>added. typoEntry dict (JObj members) = Inr (Some (JStr wd), reps @ added) \<and>
     distinct added \<and>
     set added = {JStr d | d. d \<in> set dict \<and> similarWords wd d} - set reps \<and>
     subseq added (map JStr dict)"
proof -
  from addDictionaryWords_string [of wd dict reps] obtain added where a:
    "addDictionaryWords (Some (JStr wd)) dict reps = Inr (reps @ added)"
    "distinct added"
    "set added = {JStr d | d. d \<in> set dict \<and> similarWords wd d} - set reps"
    "subseq added (map JStr dict)"
    by blast
  have "typoEntry dict (JObj members) = Inr (Some (JStr wd), reps @ added)"
    using assms a(1) by (simp add: typoEntry_def)
  then show ?thesis using a(2,3,4) by blast
qed

text \<open>
  C3, as the code has it. Every entry of the typos list is shown, in order; none is
  skipped or flagged. For an entry with a string \<^verbatim>\<open>word\<close> and a list \<^verbatim>\<open>replacements\<close>,
  the buttons are the replacements of the model followed by the dictionary words that are
  similar to the word and not among them, each once and in dictionary order. So the
  list of an entry is empty exactly when the model gave no replacement and no dictionary
  word is similar to the word.
\<close>

theorem every_typo_is_shown:
  assumes "showTypoSuggestions text (JArr ts) dict r w = Inr w'"
  shows "\<exists>entries. ui w' = ui w @ [ShowModalDialog (FixTypos text entries)] \<and>
     length entries = length ts \<and>
     (\<forall>i<length ts. \<forall>members wd reps.
        ts ! i = JObj members \<and> lookup_member members ''word'' = Some (JStr wd) \<and>
        lookup_member members ''replacements'' = Some (JArr reps) \<longrightarrow>
          fst (entries ! i) = Some (JStr wd) \<and>
          (\<exists>added. snd (entries ! i) = reps @ added \<and> distinct added \<and>
             set added = {JStr d | d. d \<in> set dict \<and> similarWords wd d} - set reps \<and>
             subseq added (map JStr dict)) \<and>
          (snd (entries ! i) = [] \<longleftrightarrow> reps = [] \<and> (\<forall>d\<in>set dict. \<not> similarWords wd d)))"
proof -
  from assms obtain entries where en: "typoEntries dict ts = Inr entries"
    "w' = rememberRange r (w\<lparr>ui := ui w @ [ShowModalDialog (FixTypos text entries)]\<rparr>)"
    by (auto simp: showTypoSuggestions_def split: sum.splits)
  have shown: "ui w' = ui w @ [ShowModalDialog (FixTypos text entries)]"
    using en(2) by (simp add: rememberRange_def)
  from typoEntries_nth [OF en(1)] have len: "length entries = length ts"
    and nth: "\<And>i. i < length ts \<Longrightarrow> typoEntry dict (ts ! i) = Inr (entries ! i)" by simp_all
  have each: "fst (entries ! i) = Some (JStr wd) \<and>
          (\<exists>added. snd (entries ! i) = reps @ added \<and> distinct added \<and>
             set added = {JStr d | d. d \<in> set dict \<and> similarWords wd d} - set reps \<and>
             subseq added (map JStr dict)) \<and>
          (snd (entries ! i) = [] \<longleftrightarrow> reps = [] \<and> (\<forall>d\<in>set dict. \<not> similarWords wd d))"
    if i: "i < length ts" and obj: "ts ! i = JObj members"
      and wd: "lookup_member members ''word'' = Some (JStr wd)"
      and reps: "lookup_member members ''replacements'' = Some (JArr reps)"
    for i members wd reps
  proof -
    from typoEntry_object [OF wd reps, of dict] obtain added where a:
      "typoEntry dict (JObj members) = Inr (Some (JStr wd), reps @ added)"
      "distinct added"
      "set added = {JStr d | d. d \<in> set dict \<and> similarWords wd d} - set reps"
      "subseq added (map JStr dict)"
      by blast
    have e: "entries ! i = (Some (JStr wd), reps @ added)"
      using nth [OF i] obj a(1) by simp
    have empty: "reps @ added = [] \<longleftrightarrow> reps = [] \<and> (\<forall>d\<in>set dict. \<not> similarWords wd d)"
    proof
      assume "reps @ added = []"
      then have "reps = []" "set added = {}" by simp_all
      then show "reps = [] \<and> (\<forall>d\<in>set dict. \<not> similarWords wd d)"
        using a(3) by auto
    next
      assume h: "reps = [] \<and> (\<forall>d\<in>set dict. \<not> similarWords wd d)"
      then have "set added = {}" using a(3) by auto
      then show "reps @ added = []" using h by simp
    qed
    show ?thesis using e a(2,3,4) empty by auto
  qed
  show ?thesis
    using shown len each by blast
qed

text \<open>
  C3, witness: the typo \<^verbatim>\<open>teh\<close> with the replacement \<^verbatim>\<open>the\<close> and the dictionary
  \<^verbatim>\<open>["ten", "cat", "the"]\<close> is shown with the buttons \<^verbatim>\<open>the\<close> and \<^verbatim>\<open>ten\<close>.
\<close>

theorem every_typo_is_shown_witness:
  "showTypoSuggestions ''I teh went'' (JArr [JObj [(''word'', JStr ''teh''), (''replacements'', JArr [JStr ''the''])]])
      [''ten'', ''cat'', ''the''] rangeB2 world1
     = Inr (rememberRange rangeB2
         (world1\<lparr>ui := [ShowModalDialog (FixTypos ''I teh went'' [(Some (JStr ''teh''), [JStr ''the'', JStr ''ten''])])]\<rparr>)) \<and>
   (\<exists>entries. ui (rememberRange rangeB2
         (world1\<lparr>ui := [ShowModalDialog (FixTypos ''I teh went'' [(Some (JStr ''teh''), [JStr ''the'', JStr ''ten''])])]\<rparr>))
       = ui world1 @ [ShowModalDialog (FixTypos ''I teh went'' entries)] \<and> length entries = 1 \<and>
       fst (entries ! 0) = Some (JStr ''teh'') \<and> snd (entries ! 0) \<noteq> [])"
proof -
  have run: "showTypoSuggestions ''I teh went'' (JArr [JObj [(''word'', JStr ''teh''), (''replacements'', JArr [JStr ''the''])]])
      [''ten'', ''cat'', ''the''] rangeB2 world1
     = Inr (rememberRange rangeB2
         (world1\<lparr>ui := [ShowModalDialog (FixTypos ''I teh went'' [(Some (JStr ''teh''), [JStr ''the'', JStr ''ten''])])]\<rparr>))"
    by (simp add: showTypoSuggestions_def typoEntry_def lookup_member_def world1_def world0_def
          similarWords_def toLowerCase_def toLowerCase_char_def charAt0_def Let_def)
  from every_typo_is_shown [OF run] obtain entries where e:
    "ui (rememberRange rangeB2
         (world1\<lparr>ui := [ShowModalDialog (FixTypos ''I teh went'' [(Some (JStr ''teh''), [JStr ''the'', JStr ''ten''])])]\<rparr>))
       = ui world1 @ [ShowModalDialog (FixTypos ''I teh went'' entries)]"
    "length entries = length [JObj [(''word'', JStr ''teh''), (''replacements'', JArr [JStr ''the''])]]"
    "\<forall>i<length [JObj [(''word'', JStr ''teh''), (''replacements'', JArr [JStr ''the''])]]. \<forall>members wd reps.
        [JObj [(''word'', JStr ''teh''), (''replacements'', JArr [JStr ''the''])]] ! i = JObj members \<and> lookup_member members ''word'' = Some (JStr wd) \<and>
        lookup_member members ''replacements'' = Some (JArr reps) \<longrightarrow>
          fst (entries ! i) = Some (JStr wd) \<and>
          (\<exists>added. snd (entries ! i) = reps @ added \<and> distinct added \<and>
             set added = {JStr d | d. d \<in> set [''ten'', ''cat'', ''the''] \<and> similarWords wd d} - set reps \<and>
             subseq added (map JStr [''ten'', ''cat'', ''the''])) \<and>
          (snd (entries ! i) = [] \<longleftrightarrow> reps = [] \<and> (\<forall>d\<in>set [''ten'', ''cat'', ''the'']. \<not> similarWords wd d))"
    by blast
  have m: "lookup_member [(''word'', JStr ''teh''), (''replacements'', JArr [JStr ''the''])] ''word'' = Some (JStr ''teh'')"
    "lookup_member [(''word'', JStr ''teh''), (''replacements'', JArr [JStr ''the''])] ''replacements'' = Some (JArr [JStr ''the''])"
    by (simp_all add: lookup_member_def)
  from e(3) m have "fst (entries ! 0) = Some (JStr ''teh'') \<and> snd (entries ! 0) \<noteq> []"
    by fastforce
  then show ?thesis using run e(1,2) by auto
qed

text \<open>
  C3, as stated, fails: with an empty dictionary, the entry \<^verbatim>\<open>teh\<close> without replacements
  is shown in the dialog, with an empty list of replacement buttons.
\<close>

theorem empty_replacements_shown_counterexample:
  "showTypoSuggestions ''I teh went'' (JArr [typo_teh_no_replacements]) [] rangeB2 world1
     = Inr (rememberRange rangeB2
         (world1\<lparr>ui := [ShowModalDialog (FixTypos ''I teh went'' [(Some (JStr ''teh''), [])])]\<rparr>))"
  by (simp add: showTypoSuggestions_def typo_teh_no_replacements_def typoEntry_def lookup_member_def
       world1_def world0_def)

section \<open>Properties of the reply interpreter\<close>

text \<open>The leftmost occurrence of a pattern, as \<open>find_sub\<close> finds it.\<close>

lemma prefix_of_occurrence:
  assumes "pre \<noteq> []" "prefix pat (pre @ pat @ post)"
  shows "prefix pat (pre @ butlast pat)"
proof (cases "pat = []")
  case True
  then show ?thesis by simp
next
  case False
  then have bl: "pat = butlast pat @ [last pat]" by simp
  have "prefix (pre @ butlast pat) (pre @ pat @ post)"
    by (metis bl append.assoc prefixI)
  moreover have "length pat \<le> length (pre @ butlast pat)"
    using assms(1) False by (cases pre) auto
  ultimately show ?thesis
    using assms(2) prefix_length_prefix by blast
qed

lemma find_sub_first:
  "pat \<noteq> [] \<Longrightarrow> \<not> sublist pat (pre @ butlast pat) \<Longrightarrow>
     find_sub pat (pre @ pat @ post) = Some (pre, post)"
proof (induction pre)
  case Nil
  then show ?case by (cases pat) auto
next
  case (Cons c pre)
  have np: "\<not> prefix pat ((c # pre) @ pat @ post)"
    using Cons.prems(2) prefix_of_occurrence [of "c # pre" pat post] by auto
  have "\<not> sublist pat (pre @ butlast pat)"
    using Cons.prems(2) by (simp add: sublist_Cons_right)
  then have "find_sub pat (pre @ pat @ post) = Some (pre, post)"
    using Cons.IH Cons.prems(1) by blast
  then show ?case using np by simp
qed

lemma find_sub_None: "find_sub pat s = None \<longleftrightarrow> \<not> sublist pat s"
proof (induction s)
  case Nil
  then show ?case by simp
next
  case (Cons c cs)
  then show ?case
    by (auto simp: sublist_Cons_right split: option.splits)
qed

lemma find_sub_Some:
  "find_sub pat s = Some (pre, post) \<Longrightarrow>
     s = pre @ pat @ post \<and> (pat \<noteq> [] \<longrightarrow> \<not> sublist pat (pre @ butlast pat))"
proof (induction s arbitrary: pre)
  case Nil
  then show ?case by (simp split: if_splits)
next
  case (Cons c cs)
  show ?case
  proof (cases "prefix pat (c # cs)")
    case True
    then have "pre = []" "post = drop (length pat) (c # cs)"
      using Cons.prems by simp_all
    moreover have "c # cs = pat @ drop (length pat) (c # cs)"
      using True by (metis append_eq_conv_conj prefixE)
    moreover have "pat \<noteq> [] \<longrightarrow> \<not> sublist pat (butlast pat)"
    proof
      assume "pat \<noteq> []"
      then have "length (butlast pat) < length pat" by simp
      then show "\<not> sublist pat (butlast pat)"
        using sublist_length_le [of pat "butlast pat"] by linarith
    qed
    ultimately show ?thesis by simp
  next
    case False
    then obtain b where b: "find_sub pat cs = Some (b, post)" "pre = c # b"
      using Cons.prems by (auto split: option.splits)
    from Cons.IH [OF b(1)] have ih: "cs = b @ pat @ post"
      "pat \<noteq> [] \<longrightarrow> \<not> sublist pat (b @ butlast pat)" by simp_all
    have "\<not> prefix pat (c # b @ butlast pat)" if "pat \<noteq> []"
    proof
      assume p: "prefix pat (c # b @ butlast pat)"
      have "prefix (c # b @ butlast pat) (c # b @ pat @ post)"
        using that by (metis append_butlast_last_id append.assoc prefixI Cons_prefix_Cons same_prefix_prefix)
      then have "prefix pat (c # cs)"
        using p ih(1) prefix_order.trans by blast
      then show False using False by simp
    qed
    then show ?thesis
      using ih b(2) by (auto simp: sublist_Cons_right)
  qed
qed

lemma sublist_single: "sublist [x] ys \<longleftrightarrow> x \<in> set ys"
  by (induction ys) (auto simp: sublist_Cons_right)

lemma strip_fences_body:
  "\<not> sublist fence (body @ butlast fence) \<Longrightarrow> strip_fences (body @ fence) = body"
proof (induction body)
  case Nil
  have "strip_fences fence = strip_fences []"
    by (subst strip_fences.simps) (simp add: fence_def fence_json_def)
  then show ?case by (simp add: strip_fences.simps [of "[]"])
next
  case (Cons c b)
  have nf: "\<not> prefix fence ((c # b) @ fence)"
    using Cons.prems prefix_of_occurrence [of "c # b" fence "[]"] by auto
  have "prefix fence fence_json" by (simp add: fence_def fence_json_def)
  then have nj: "\<not> prefix fence_json ((c # b) @ fence)"
    using nf prefix_order.trans by blast
  have "\<not> sublist fence (b @ butlast fence)"
    using Cons.prems by (simp add: sublist_Cons_right)
  then have ih: "strip_fences (b @ fence) = b" using Cons.IH by blast
  show ?case
    using nf nj ih by (subst strip_fences.simps) simp
qed

lemma strip_fences_fenced:
  assumes "\<not> sublist fence (body @ butlast fence)"
  shows "strip_fences (fence_json @ body @ fence) = body"
proof -
  have "strip_fences (fence_json @ body @ fence) = strip_fences (drop 7 (fence_json @ body @ fence))"
    by (subst strip_fences.simps) (simp add: fence_json_def)
  also have "drop 7 (fence_json @ body @ fence) = body @ fence"
    by (simp add: fence_json_def)
  finally show ?thesis using strip_fences_body [OF assms] by simp
qed

lemma match_fence_Some:
  assumes "\<not> sublist fence_json (pre @ butlast fence_json)"
    and "\<not> sublist fence (body @ butlast fence)"
  shows "match_fence (pre @ fence_json @ body @ fence @ post) = Some (fence_json @ body @ fence)"
proof -
  have "find_sub fence_json (pre @ fence_json @ body @ fence @ post) = Some (pre, body @ fence @ post)"
    using find_sub_first [of fence_json pre] assms(1) by (simp add: fence_json_def)
  moreover have "find_sub fence (body @ fence @ post) = Some (body, post)"
    using find_sub_first [of fence body] assms(2) by (simp add: fence_def)
  ultimately show ?thesis by (simp add: match_fence_def)
qed

lemma match_fence_None:
  "match_fence r = None \<longleftrightarrow>
     \<not> sublist fence_json r \<or>
     (\<exists>pre rest. r = pre @ fence_json @ rest \<and> \<not> sublist fence_json (pre @ butlast fence_json) \<and>
        \<not> sublist fence rest)"
proof
  assume n: "match_fence r = None"
  show "\<not> sublist fence_json r \<or>
     (\<exists>pre rest. r = pre @ fence_json @ rest \<and> \<not> sublist fence_json (pre @ butlast fence_json) \<and>
        \<not> sublist fence rest)"
  proof (cases "find_sub fence_json r")
    case None
    then show ?thesis by (simp add: find_sub_None)
  next
    case (Some pr)
    obtain pre rest where pr: "pr = (pre, rest)" by (cases pr)
    have "find_sub fence rest = None"
      using n Some pr by (simp add: match_fence_def split: option.splits prod.splits)
    then have "\<not> sublist fence rest" by (simp add: find_sub_None)
    moreover have "r = pre @ fence_json @ rest" "\<not> sublist fence_json (pre @ butlast fence_json)"
      using find_sub_Some [of fence_json r pre rest] Some pr by (simp_all add: fence_json_def)
    ultimately show ?thesis by blast
  qed
next
  assume "\<not> sublist fence_json r \<or>
     (\<exists>pre rest. r = pre @ fence_json @ rest \<and> \<not> sublist fence_json (pre @ butlast fence_json) \<and>
        \<not> sublist fence rest)"
  then show "match_fence r = None"
  proof
    assume "\<not> sublist fence_json r"
    then have "find_sub fence_json r = None" by (simp add: find_sub_None)
    then show ?thesis by (simp add: match_fence_def)
  next
    assume "\<exists>pre rest. r = pre @ fence_json @ rest \<and> \<not> sublist fence_json (pre @ butlast fence_json) \<and>
        \<not> sublist fence rest"
    then obtain pre rest where h: "r = pre @ fence_json @ rest"
      "\<not> sublist fence_json (pre @ butlast fence_json)" "\<not> sublist fence rest" by blast
    have "find_sub fence_json r = Some (pre, rest)"
      using find_sub_first [of fence_json pre rest] h(1,2) by (simp add: fence_json_def)
    moreover have "find_sub fence rest = None" using h(3) by (simp add: find_sub_None)
    ultimately show ?thesis by (simp add: match_fence_def)
  qed
qed

lemma match_braces_Some:
  assumes "CHR ''{'' \<notin> set pre" "CHR ''}'' \<notin> set post"
  shows "match_braces (pre @ ''{'' @ mid @ ''}'' @ post) = Some (''{'' @ mid @ ''}'')"
proof -
  have "rev (mid @ ''}'' @ post) = rev post @ CHR ''}'' # rev mid" by simp
  moreover have "\<And>x. x \<in> set (rev post) \<Longrightarrow> x \<noteq> CHR ''}''"
    using assms(2) by auto
  then have "dropWhile (\<lambda>c. c \<noteq> CHR ''}'') (rev post @ CHR ''}'' # rev mid)
               = dropWhile (\<lambda>c. c \<noteq> CHR ''}'') (CHR ''}'' # rev mid)"
    by (rule dropWhile_append2)
  ultimately have "dropWhile (\<lambda>c. c \<noteq> CHR ''}'') (rev (mid @ ''}'' @ post)) = CHR ''}'' # rev mid"
    by simp
  moreover have "find_sub ''{'' (pre @ ''{'' @ mid @ ''}'' @ post) = Some (pre, mid @ ''}'' @ post)"
    using find_sub_first [of "''{''" pre "mid @ ''}'' @ post"] assms(1) by (simp add: sublist_single)
  ultimately show ?thesis by (simp add: match_braces_def)
qed

lemma match_braces_None:
  "match_braces r = None \<longleftrightarrow>
     CHR ''{'' \<notin> set r \<or>
     (\<exists>pre rest. r = pre @ ''{'' @ rest \<and> CHR ''{'' \<notin> set pre \<and> CHR ''}'' \<notin> set rest)"
proof
  assume n: "match_braces r = None"
  show "CHR ''{'' \<notin> set r \<or>
     (\<exists>pre rest. r = pre @ ''{'' @ rest \<and> CHR ''{'' \<notin> set pre \<and> CHR ''}'' \<notin> set rest)"
  proof (cases "find_sub ''{'' r")
    case None
    then show ?thesis by (simp add: find_sub_None sublist_single)
  next
    case (Some pr)
    obtain pre rest where pr: "pr = (pre, rest)" by (cases pr)
    have "CHR ''}'' \<notin> set rest"
      using n Some pr by (simp add: match_braces_def split: if_splits)
    moreover have "r = pre @ ''{'' @ rest" "CHR ''{'' \<notin> set pre"
      using find_sub_Some [of "''{''" r pre rest] Some pr by (simp_all add: sublist_single)
    ultimately show ?thesis by blast
  qed
next
  assume "CHR ''{'' \<notin> set r \<or>
     (\<exists>pre rest. r = pre @ ''{'' @ rest \<and> CHR ''{'' \<notin> set pre \<and> CHR ''}'' \<notin> set rest)"
  then show "match_braces r = None"
  proof
    assume "CHR ''{'' \<notin> set r"
    then have "find_sub ''{'' r = None" by (simp add: find_sub_None sublist_single)
    then show ?thesis by (simp add: match_braces_def)
  next
    assume "\<exists>pre rest. r = pre @ ''{'' @ rest \<and> CHR ''{'' \<notin> set pre \<and> CHR ''}'' \<notin> set rest"
    then obtain pre rest where h: "r = pre @ ''{'' @ rest" "CHR ''{'' \<notin> set pre"
      "CHR ''}'' \<notin> set rest" by blast
    have "find_sub ''{'' r = Some (pre, rest)"
      using find_sub_first [of "''{''" pre rest] h(1,2) by (simp add: sublist_single)
    then show ?thesis using h(3) by (simp add: match_braces_def)
  qed
qed

text \<open>
  C1, as the code has it. Exactly one text is handed to \<^verbatim>\<open>JSON.parse\<close>, chosen by the
  first pattern that matches and not by the first stage that parses; when its parse
  fails the interpreter fails, without trying another stage. The text is
  \<^item> the trimmed content between the first \<^verbatim>\<open>```json\<close> and the next \<^verbatim>\<open>```\<close>, when the
    reply has such a fenced block;
  \<^item> otherwise the span from the first \<^verbatim>\<open>{\<close> to the last \<^verbatim>\<open>}\<close> of the reply (not the
    brace-matched object), with every \<^verbatim>\<open>```json\<close> and \<^verbatim>\<open>```\<close> removed and then trimmed,
    when there is a \<^verbatim>\<open>}\<close> behind the first \<^verbatim>\<open>{\<close>;
  \<^item> otherwise the whole reply.
  The last two conjuncts say when a pattern does not match.
\<close>

theorem reply_candidate_by_first_match:
  "parseReply JSON_parse (Some (JStr r))
     = (case JSON_parse (candidate r) of None \<Rightarrow> Inl parse_failed | Some result \<Rightarrow> Inr result) \<and>
   (\<forall>pre body post.
      r = pre @ fence_json @ body @ fence @ post \<and>
      \<not> sublist fence_json (pre @ butlast fence_json) \<and> \<not> sublist fence (body @ butlast fence)
        \<longrightarrow> candidate r = trim body) \<and>
   (\<forall>pre mid post.
      match_fence r = None \<and> r = pre @ ''{'' @ mid @ ''}'' @ post \<and>
      CHR ''{'' \<notin> set pre \<and> CHR ''}'' \<notin> set post
        \<longrightarrow> candidate r = trim (strip_fences (''{'' @ mid @ ''}''))) \<and>
   (match_fence r = None \<and> match_braces r = None \<longrightarrow> candidate r = r) \<and>
   (match_fence r = None \<longleftrightarrow>
      \<not> sublist fence_json r \<or>
      (\<exists>pre rest. r = pre @ fence_json @ rest \<and>
         \<not> sublist fence_json (pre @ butlast fence_json) \<and> \<not> sublist fence rest)) \<and>
   (match_braces r = None \<longleftrightarrow>
      CHR ''{'' \<notin> set r \<or>
      (\<exists>pre rest. r = pre @ ''{'' @ rest \<and> CHR ''{'' \<notin> set pre \<and> CHR ''}'' \<notin> set rest))"
proof -
  have one: "parseReply JSON_parse (Some (JStr r))
     = (case JSON_parse (candidate r) of None \<Rightarrow> Inl parse_failed | Some result \<Rightarrow> Inr result)"
    by (simp add: parseReply_def)
  have fenced: "candidate r = trim body"
    if "r = pre @ fence_json @ body @ fence @ post"
      "\<not> sublist fence_json (pre @ butlast fence_json)" "\<not> sublist fence (body @ butlast fence)"
    for pre body post
    using that match_fence_Some [of pre body post] strip_fences_fenced [of body]
    by (simp add: candidate_def jsonMatch_def)
  have braces: "candidate r = trim (strip_fences (''{'' @ mid @ ''}''))"
    if "match_fence r = None" "r = pre @ ''{'' @ mid @ ''}'' @ post"
      "CHR ''{'' \<notin> set pre" "CHR ''}'' \<notin> set post"
    for pre mid post
    using that match_braces_Some [of pre post mid]
    by (simp add: candidate_def jsonMatch_def)
  have whole: "candidate r = r" if "match_fence r = None" "match_braces r = None"
    using that by (simp add: candidate_def jsonMatch_def)
  show ?thesis
    using one fenced braces whole match_fence_None [of r] match_braces_None [of r]
    by blast
qed

text \<open>
  C1, witness: a reply with a fenced block, a reply with an object inside prose, and a
  reply that is JSON as a whole.
\<close>

theorem reply_candidate_by_first_match_witness:
  \<open>candidate fenced_reply = ''{"typos":[]}'' \<and>
   parseReply json_parse (Some (JStr fenced_reply)) = Inr (JObj [(''typos'', JArr [])]) \<and>
   candidate braces_reply = ''{"typos":[]}'' \<and>
   parseReply json_parse (Some (JStr braces_reply)) = Inr (JObj [(''typos'', JArr [])]) \<and>
   candidate ''[]'' = ''[]'' \<and>
   parseReply json_parse (Some (JStr ''[]'')) = Inr (JArr [])\<close>
proof -
  note t1 = reply_candidate_by_first_match [of json_parse fenced_reply]
  note t2 = reply_candidate_by_first_match [of json_parse braces_reply]
  note t3 = reply_candidate_by_first_match [of json_parse "''[]''"]
  have d1: \<open>fenced_reply = ''Here you go: '' @ fence_json @ ([CHR 0x0A] @ ''{"typos":[]}'' @ [CHR 0x0A]) @ fence @ '' Done.''\<close>
    by (simp add: fenced_reply_def fence_json_def fence_def)
  have n1: "\<not> sublist fence_json (''Here you go: '' @ butlast fence_json)"
    by (simp add: fence_json_def sublist_Cons_right)
  have n2: \<open>\<not> sublist fence (([CHR 0x0A] @ ''{"typos":[]}'' @ [CHR 0x0A]) @ butlast fence)\<close>
    by (simp add: fence_def sublist_Cons_right)
  have c1: \<open>candidate fenced_reply = trim ([CHR 0x0A] @ ''{"typos":[]}'' @ [CHR 0x0A])\<close>
    using t1 d1 n1 n2 by blast
  have tr: \<open>trim ([CHR 0x0A] @ ''{"typos":[]}'' @ [CHR 0x0A]) = ''{"typos":[]}''\<close>
    by (simp add: trim_def is_space_def)
  have p: \<open>json_parse ''{"typos":[]}'' = Some (JObj [(''typos'', JArr [])])\<close>
    by code_simp
  have m2: "match_fence braces_reply = None"
    by code_simp
  have d2: \<open>braces_reply = ''Result: '' @ ''{'' @ ''"typos":[]'' @ ''}'' @ '' (end)''\<close>
    by (simp add: braces_reply_def)
  have s2: \<open>CHR ''{'' \<notin> set ''Result: ''\<close> \<open>CHR ''}'' \<notin> set '' (end)''\<close>
    by simp_all
  have c2: \<open>candidate braces_reply = trim (strip_fences (''{'' @ ''"typos":[]'' @ ''}''))\<close>
    using t2 m2 d2 s2 by blast
  have st: \<open>trim (strip_fences (''{'' @ ''"typos":[]'' @ ''}'')) = ''{"typos":[]}''\<close>
    by code_simp
  have m3: "match_fence ''[]'' = None" "match_braces ''[]'' = None"
    by code_simp+
  have c3: "candidate ''[]'' = ''[]''"
    using t3 m3 by blast
  have p3: "json_parse ''[]'' = Some (JArr [])"
    by code_simp
  show ?thesis
    using t1 t2 t3 c1 c2 c3 tr st p p3 by simp
qed

text \<open>
  C1, as stated, fails: in the reply \<^verbatim>\<open>{"typos":[]} {}\<close> brace matching finds the object
  \<^verbatim>\<open>{"typos":[]}\<close>, which is valid, so the three stages of the specification yield an
  empty typo list; the code takes the span up to the last brace, which is not JSON, and
  fails with "Failed to parse OpenAI response".
\<close>

theorem greedy_braces_counterexample:
  \<open>spec_parseReply json_parse two_objects_reply = Inr (JObj [(''typos'', JArr [])]) \<and>
   parseReply json_parse (Some (JStr two_objects_reply)) = Inl parse_failed\<close>
  by code_simp

section \<open>Properties of the replacement\<close>

text \<open>
  For a word of ordinary characters and a replacement without a dollar sign, the
  replacement through the regular expression is the substitution of the literal word.
\<close>

lemma compile_literal:
  "set w \<inter> set other_syntax_chars = {} \<Longrightarrow> CHR ''.'' \<notin> set w \<Longrightarrow> compile w = Some (map Lit w)"
  by (induction w) auto

lemma matches_here_literal: "matches_here (map Lit w) s \<longleftrightarrow> prefix w s"
proof -
  have "list_all2 atom_matches (map Lit w) xs \<longleftrightarrow> xs = w" for xs
    by (induction w arbitrary: xs) (auto simp: list_all2_Cons1)
  then have "matches_here (map Lit w) s \<longleftrightarrow> length w \<le> length s \<and> take (length w) s = w"
    by (simp add: matches_here_def)
  also have "\<dots> \<longleftrightarrow> prefix w s"
    by (metis append_eq_conv_conj prefix_def prefix_length_le)
  finally show ?thesis .
qed

lemma expand_no_dollar: "CHR ''$'' \<notin> set r \<Longrightarrow> expand r m pre post = r"
  by (induction r m pre post rule: expand.induct) auto

lemma replace_all_literal:
  assumes "w \<noteq> []" "CHR ''$'' \<notin> set r"
  shows "replace_all (map Lit w) r pre s = spec_literal_replace w r s"
proof (induction "length s" arbitrary: s pre rule: less_induct)
  case less
  show ?case
  proof (cases "prefix w s")
    case True
    then have "length w \<le> length s" by (simp add: prefix_length_le)
    then have "length (drop (length w) s) < length s" using assms(1) by (cases w) auto
    then have ih: "replace_all (map Lit w) r (pre @ take (length w) s) (drop (length w) s)
                     = spec_literal_replace w r (drop (length w) s)"
      using less by blast
    have "replace_all (map Lit w) r pre s
            = r @ replace_all (map Lit w) r (pre @ take (length w) s) (drop (length w) s)"
      using True assms by (subst replace_all.simps) (simp add: matches_here_literal expand_no_dollar)
    moreover have "spec_literal_replace w r s = r @ spec_literal_replace w r (drop (length w) s)"
      using True assms(1) by (subst spec_literal_replace.simps) simp
    ultimately show ?thesis using ih by simp
  next
    case False
    show ?thesis
    proof (cases s)
      case Nil
      then show ?thesis
        using False by (subst replace_all.simps, subst spec_literal_replace.simps)
          (simp add: matches_here_literal)
    next
      case (Cons c cs)
      then have ih: "replace_all (map Lit w) r (pre @ [c]) cs = spec_literal_replace w r cs"
        using less by simp
      have "replace_all (map Lit w) r pre s = c # replace_all (map Lit w) r (pre @ [c]) cs"
        using False Cons by (subst replace_all.simps) (simp add: matches_here_literal)
      moreover have "spec_literal_replace w r s = c # spec_literal_replace w r cs"
        using False Cons by (subst spec_literal_replace.simps) simp
      ultimately show ?thesis using ih by simp
    qed
  qed
qed

lemma regex_replace_literal_word:
  assumes "w \<noteq> []" "set w \<inter> set other_syntax_chars = {}" "CHR ''.'' \<notin> set w" "CHR ''$'' \<notin> set r"
  shows "regex_replace w r s = Some (spec_literal_replace w r s)"
  using assms by (simp add: regex_replace_def compile_literal replace_all_literal)

text \<open>
  The scenario of the specification: accepting \<^verbatim>\<open>teh -> the\<close> in
  \<^verbatim>\<open>I teh went to the the store\<close>.
\<close>

lemma replaceTypo_specification_example:
  "replaceTypo ''teh'' ''the'' (''I teh went to the the store'', world0)
     = Some (''I the went to the the store'', world0)"
proof -
  have "regex_replace ''teh'' ''the'' ''I teh went to the the store'' = Some ''I the went to the the store''"
    by code_simp
  then show ?thesis
    by (simp add: replaceTypo_def updateCellWithCorrectedText_def world0_def falsy_entry_def)
qed

text \<open>
  C2. The typo word is not read as a literal string: in \<^verbatim>\<open>Mr. and Mrs Smith\<close>, accepting
  \<^verbatim>\<open>Mr. -> Mister\<close> also replaces \<^verbatim>\<open>Mrs\<close>, because the dot of the word matches any
  character; the substitution of the literal word leaves \<^verbatim>\<open>Mrs\<close> as it is.
\<close>

theorem replaceTypo_word_is_a_pattern:
  "replaceTypo ''Mr.'' ''Mister'' (''Mr. and Mrs Smith'', world0)
     = Some (''Mister and Mister Smith'', world0) \<and>
   spec_literal_replace ''Mr.'' ''Mister'' ''Mr. and Mrs Smith'' = ''Mister and Mrs Smith''"
proof -
  have "regex_replace ''Mr.'' ''Mister'' ''Mr. and Mrs Smith'' = Some ''Mister and Mister Smith''"
    by code_simp
  moreover have "spec_literal_replace ''Mr.'' ''Mister'' ''Mr. and Mrs Smith'' = ''Mister and Mrs Smith''"
    by code_simp
  ultimately show ?thesis
    by (simp add: replaceTypo_def updateCellWithCorrectedText_def world0_def falsy_entry_def)
qed

end
